theory Spec2Isabelle
  imports Main "HOL-Library.Word" "HOL-Library.Monad_Syntax"
begin

unbundle bit_operations_syntax

section \<open>The MSSP peripheral and the driver's state\<close>

text \<open>
  The driver \<^verbatim>\<open>i2c.c\<close> talks to the MSSP peripheral of a PIC18 through special
  function registers, and shares one global variable, \<^verbatim>\<open>ack_flag\<close>, with its own
  interrupt handler. The registers are 8 bits wide; \<^verbatim>\<open>SSPIF\<close>, \<^verbatim>\<open>BCLIF\<close>,
  \<^verbatim>\<open>SSPIE\<close>, \<^verbatim>\<open>BCLIE\<close>, \<^verbatim>\<open>PEIE\<close> and \<^verbatim>\<open>GIE\<close> are single-bit flags.
\<close>

type_synonym byte = "8 word"

record regs =
  SSPCON1 :: byte
  SSPCON2 :: byte
  SSPSTAT :: byte
  SSPADD :: byte
  SSPBUF :: byte
  SSPIF :: bool
  BCLIF :: bool
  SSPIE :: bool
  BCLIE :: bool
  PEIE :: bool
  GIE :: bool

text \<open>
  Modelled from the spec: the bit-fields of \<^verbatim>\<open>SSPCON2bits\<close> are declared in the device
  header \<^verbatim>\<open>xc.h\<close>, which is not part of the repository. The five conditions the driver
  asserts (start, repeated start, stop, receive enable, acknowledge enable) are the five
  low bits of \<^verbatim>\<open>SSPCON2\<close>, as the comment of \<^verbatim>\<open>i2c_check_idle\<close> says of its
  constant \<^verbatim>\<open>0x1F\<close>; the acknowledgement bit to send and the acknowledgement status
  are two further bits of the same register. The places taken here are those of the PIC18
  MSSP: \<^verbatim>\<open>SEN\<close> in bit 0 up to \<^verbatim>\<open>ACKSTAT\<close> in bit 6. In \<^verbatim>\<open>SSPSTAT\<close>, mask
  \<^verbatim>\<open>0x5\<close> selects \<^verbatim>\<open>BF\<close> (bit 0) and \<^verbatim>\<open>R/W\<close> (bit 2).
\<close>

datatype con2_field = SEN | RSEN | PEN | RCEN | ACKEN | ACKDT | ACKSTAT

fun field_bit :: "con2_field \<Rightarrow> nat" where
  "field_bit SEN = 0"
| "field_bit RSEN = 1"
| "field_bit PEN = 2"
| "field_bit RCEN = 3"
| "field_bit ACKEN = 4"
| "field_bit ACKDT = 5"
| "field_bit ACKSTAT = 6"

text \<open>
  What the driver does to the outside is recorded in a log. A statement that writes a
  register, a bit-field or \<^verbatim>\<open>ack_flag\<close> leaves one entry, and the entry holds what
  the register, the field or the flag reads right after the statement, not what the
  statement was meant to write. A statement that reads leaves the value read; a wait loop
  leaves an entry when it is left; the interrupt handler leaves one each time it takes
  \<^verbatim>\<open>ack_flag\<close> back to 0. The log and the count of elapsed ticks are observations; no
  statement of the driver reads them.
\<close>

datatype action =
    Idle_wait byte            \<comment> \<open>\<^verbatim>\<open>i2c_check_idle(mask)\<close> has returned\<close>
  | Field con2_field bool     \<comment> \<open>after \<^verbatim>\<open>SSPCON2bits.F = v\<close>, what the field reads\<close>
  | Transmit byte             \<comment> \<open>after \<^verbatim>\<open>SSPBUF = v\<close>, what \<^verbatim>\<open>SSPBUF\<close> reads\<close>
  | Fetch byte                \<comment> \<open>\<^verbatim>\<open>dt = SSPBUF\<close>, the value read\<close>
  | Flag int                  \<comment> \<open>after \<^verbatim>\<open>ack_flag = 1\<close>, what \<^verbatim>\<open>ack_flag\<close> reads\<close>
  | Released                  \<comment> \<open>\<^verbatim>\<open>while (ack_flag);\<close> has been left\<close>
  | Ack_status bool           \<comment> \<open>\<^verbatim>\<open>SSPCON2bits.ACKSTAT\<close>, the value read\<close>
  | Store_SSPCON1 byte
  | Store_SSPSTAT byte
  | Store_SSPADD byte
  | Store_SSPIE bool
  | Store_BCLIE bool
  | Store_PEIE bool
  | Store_GIE bool
  | Store_SSPIF bool
  | Store_BCLIF bool
  | Handler_cleared           \<comment> \<open>the handler executed \<^verbatim>\<open>ack_flag = 0\<close>\<close>

text \<open>
  The entries the driver is meant to leave: a condition bit that reads 1 after it was
  set, \<^verbatim>\<open>ACKDT\<close> reading the bit given, the flag reading 1 after it was armed.
\<close>

abbreviation Assert :: "con2_field \<Rightarrow> action" where
  "Assert f \<equiv> Field f True"


abbreviation Arm :: action where
  "Arm \<equiv> Flag 1"

record state =
  hw :: regs
  ack_flag :: int
  clock :: nat
  trace :: "action list"

section \<open>The interrupt handler\<close>

text \<open>
  \<^verbatim>\<open>
  void i2c_interrupt(void)
  {
      if (SSPIF == 1) {
          if (ack_flag == 1) {
            ack_flag = 0;
          }
          SSPIF = 0;
      }
      if (BCLIF == 1) {
          BCLIF = 0;         // Clear only
      }
  }
  \<close>
\<close>

definition i2c_interrupt :: "state \<Rightarrow> state" where
  "i2c_interrupt s =
     (let s1 = (if SSPIF (hw s)
                then (let s' = (if ack_flag s = 1 then s\<lparr>ack_flag := 0\<rparr> else s)
                      in s'\<lparr>hw := (hw s')\<lparr>SSPIF := False\<rparr>\<rparr>)
                else s)
      in if BCLIF (hw s1) then s1\<lparr>hw := (hw s1)\<lparr>BCLIF := False\<rparr>\<rparr> else s1)"

section \<open>The environment\<close>

text \<open>
  The peripheral and the interrupt dispatcher are outside the driver. At every tick the
  environment first lets the hardware change the registers in any way (it cannot reach
  \<^verbatim>\<open>ack_flag\<close>, which is a variable of the program), and then decides whether the
  dispatcher calls \<^verbatim>\<open>i2c_interrupt\<close>. An environment is any infinite sequence of such
  stimuli. One tick passes before every access the main path makes to a register or to
  \<^verbatim>\<open>ack_flag\<close>, so the hardware may move and the handler may run between any two
  statements, between any two polls of a loop and between the two register reads of one
  poll; a tick whose hardware step is the identity and which does not dispatch leaves
  everything as it was.
\<close>

record stimulus =
  hardware :: "regs \<Rightarrow> regs"
  dispatch :: bool

type_synonym env = "nat \<Rightarrow> stimulus"

definition logged :: "action \<Rightarrow> state \<Rightarrow> state" where
  "logged a s = s\<lparr>trace := trace s @ [a]\<rparr>"

definition tick :: "env \<Rightarrow> state \<Rightarrow> state" where
  "tick env s =
     (let e = env (clock s);
          s1 = s\<lparr>hw := hardware e (hw s)\<rparr>;
          s2 = (if dispatch e then i2c_interrupt s1 else s1);
          s3 = (if ack_flag s2 \<noteq> ack_flag s1 then logged Handler_cleared s2 else s2)
      in s3\<lparr>clock := Suc (clock s)\<rparr>)"

primrec ticks :: "env \<Rightarrow> nat \<Rightarrow> state \<Rightarrow> state" where
  "ticks env 0 s = s"
| "ticks env (Suc n) s = ticks env n (tick env s)"

section \<open>The statements of the main path\<close>

text \<open>
  A write to a register or flag: one tick, the write, and the log entry read back from
  the registers as the write has left them.
\<close>

definition poke :: "env \<Rightarrow> (regs \<Rightarrow> regs) \<Rightarrow> (regs \<Rightarrow> action) \<Rightarrow> state \<Rightarrow> state" where
  "poke env f obs s = (let s' = tick env s; r = f (hw s') in logged (obs r) (s'\<lparr>hw := r\<rparr>))"

text \<open>\<^verbatim>\<open>SSPCON2bits.F = 1\<close> for one of the condition bits.\<close>

definition assert_cond :: "env \<Rightarrow> con2_field \<Rightarrow> state \<Rightarrow> state" where
  "assert_cond env f s =
     poke env (\<lambda>r. r\<lparr>SSPCON2 := set_bit (field_bit f) (SSPCON2 r)\<rparr>)
       (\<lambda>r. Field f (bit (SSPCON2 r) (field_bit f))) s"

text \<open>
  \<^verbatim>\<open>SSPCON2bits.ACKDT = ack\<close> with \<^verbatim>\<open>int ack\<close>: a one-bit unsigned field keeps the
  lowest bit of the value assigned.
\<close>

definition set_ACKDT :: "env \<Rightarrow> int \<Rightarrow> state \<Rightarrow> state" where
  "set_ACKDT env ack s =
     poke env (\<lambda>r. r\<lparr>SSPCON2 := (if odd ack then set_bit else unset_bit)
                                   (field_bit ACKDT) (SSPCON2 r)\<rparr>)
       (\<lambda>r. Field ACKDT (bit (SSPCON2 r) (field_bit ACKDT))) s"

text \<open>\<^verbatim>\<open>SSPBUF = v\<close>.\<close>

definition load_SSPBUF :: "env \<Rightarrow> byte \<Rightarrow> state \<Rightarrow> state" where
  "load_SSPBUF env v s = poke env (\<lambda>r. r\<lparr>SSPBUF := v\<rparr>) (\<lambda>r. Transmit (SSPBUF r)) s"

text \<open>\<^verbatim>\<open>dt = SSPBUF\<close>.\<close>

definition fetch_SSPBUF :: "env \<Rightarrow> state \<Rightarrow> byte \<times> state" where
  "fetch_SSPBUF env s =
     (let s' = tick env s; dt = SSPBUF (hw s') in (dt, logged (Fetch dt) s'))"

text \<open>\<^verbatim>\<open>ack_flag = 1\<close>.\<close>

definition arm :: "env \<Rightarrow> state \<Rightarrow> state" where
  "arm env s = (let s' = (tick env s)\<lparr>ack_flag := 1\<rparr> in logged (Flag (ack_flag s')) s')"

text \<open>\<^verbatim>\<open>return SSPCON2bits.ACKSTAT\<close>: the bit as an \<^verbatim>\<open>int\<close>, 0 or 1.\<close>

definition return_ACKSTAT :: "env \<Rightarrow> state \<Rightarrow> int \<times> state" where
  "return_ACKSTAT env s =
     (let s' = tick env s; b = bit (SSPCON2 (hw s')) (field_bit ACKSTAT)
      in (if b then 1 else 0, logged (Ack_status b) s'))"

text \<open>
  \<^verbatim>\<open>while (ack_flag);\<close> may spin forever: not returning is \<open>None\<close>.
\<close>

partial_function (option) wait_ack :: "env \<Rightarrow> state \<Rightarrow> state option" where
  "wait_ack env s =
     (let s' = tick env s
      in if ack_flag s' \<noteq> 0 then wait_ack env s' else Some (logged Released s'))"

section \<open>The operations of the driver\<close>

text \<open>
  \<^verbatim>\<open>
  void i2c_check_idle(char mask)
  {
      while ((SSPCON2 & 0x1F ) | (SSPSTAT & mask));
  }
  \<close>
  One evaluation of the loop condition reads two volatile registers, one after the other:
  a tick passes before \<^verbatim>\<open>SSPCON2\<close> is read and another before \<^verbatim>\<open>SSPSTAT\<close> is read,
  so the two values need not come from one state of the hardware. C leaves the order of the
  two reads to the compiler; they are taken in the order written. The integer promotions
  of C do not change the test: both operands of each \<^verbatim>\<open>&\<close> fit in eight bits once the
  register is one of them.
\<close>

definition busy :: "byte \<Rightarrow> byte \<Rightarrow> byte \<Rightarrow> bool" where
  "busy msk con2 stat \<longleftrightarrow> (con2 AND 0x1F) OR (stat AND msk) \<noteq> 0"

partial_function (option) i2c_check_idle :: "env \<Rightarrow> byte \<Rightarrow> state \<Rightarrow> state option" where
  "i2c_check_idle env msk s =
     (let s1 = tick env s; con2 = SSPCON2 (hw s1);
          s2 = tick env s1; stat = SSPSTAT (hw s2)
      in if busy msk con2 stat then i2c_check_idle env msk s2
         else Some (logged (Idle_wait msk) s2))"

text \<open>
  \<^verbatim>\<open>
  void i2c_init_master(void)
  {
      SSPCON1= 0b00101000;   // master mode
      SSPSTAT= 0b00000000;
      SSPADD = 0x77;       // normal speed, 100kHz.
                             // clock=FOSC/((SSPADD + 1)*4)
      SSPIE = 1;             // Enable SSP(I2C) interrupt
      BCLIE = 1;             // Enable MSSP(I2C) conflict interrupt
      PEIE  = 1;             // Enable Peripheral interrupt
      GIE   = 1;             // Enable Global interrupt
      SSPIF = 0;             // Clear SSP(I2C) interrupt flag
      BCLIF = 0;             // Clear MSSP(I2C) interrupt flag
  }
  \<close>
\<close>

definition i2c_init_master :: "env \<Rightarrow> state \<Rightarrow> state" where
  "i2c_init_master env s =
     (let s1 = poke env (\<lambda>r. r\<lparr>SSPCON1 := 0x28\<rparr>) (\<lambda>r. Store_SSPCON1 (SSPCON1 r)) s;
          s2 = poke env (\<lambda>r. r\<lparr>SSPSTAT := 0\<rparr>) (\<lambda>r. Store_SSPSTAT (SSPSTAT r)) s1;
          s3 = poke env (\<lambda>r. r\<lparr>SSPADD := 0x77\<rparr>) (\<lambda>r. Store_SSPADD (SSPADD r)) s2;
          s4 = poke env (\<lambda>r. r\<lparr>SSPIE := True\<rparr>) (\<lambda>r. Store_SSPIE (SSPIE r)) s3;
          s5 = poke env (\<lambda>r. r\<lparr>BCLIE := True\<rparr>) (\<lambda>r. Store_BCLIE (BCLIE r)) s4;
          s6 = poke env (\<lambda>r. r\<lparr>PEIE := True\<rparr>) (\<lambda>r. Store_PEIE (PEIE r)) s5;
          s7 = poke env (\<lambda>r. r\<lparr>GIE := True\<rparr>) (\<lambda>r. Store_GIE (GIE r)) s6;
          s8 = poke env (\<lambda>r. r\<lparr>SSPIF := False\<rparr>) (\<lambda>r. Store_SSPIF (SSPIF r)) s7
      in poke env (\<lambda>r. r\<lparr>BCLIF := False\<rparr>) (\<lambda>r. Store_BCLIF (BCLIF r)) s8)"

text \<open>
  The address byte \<^verbatim>\<open>(unsigned char)((adrs<<1)+rw)\<close>: both operands are promoted to
  \<^verbatim>\<open>int\<close> (16 bits with this compiler), the sum is cut back to eight bits.
  \<^verbatim>\<open>i2c_rstart\<close> writes the cast as \<^verbatim>\<open>(char)\<close>; the eight bits stored in
  \<^verbatim>\<open>SSPBUF\<close> are the same.
\<close>

definition address_byte :: "byte \<Rightarrow> byte \<Rightarrow> byte" where
  "address_byte adrs rw = ucast (push_bit 1 (ucast adrs :: 16 word) + ucast rw)"

text \<open>
  \<^verbatim>\<open>
  int i2c_start(unsigned char adrs, unsigned char rw)
  {
      i2c_check_idle(0x5);
      SSPCON2bits.SEN = 1;
      i2c_check_idle(0x5);
      ack_flag = 1;
      SSPBUF = (unsigned char)((adrs<<1)+rw);
      while (ack_flag);       // Wait ACK
      return SSPCON2bits.ACKSTAT;
  }
  \<close>
\<close>

definition i2c_start :: "env \<Rightarrow> byte \<Rightarrow> byte \<Rightarrow> state \<Rightarrow> (int \<times> state) option" where
  "i2c_start env adrs rw s =
     do {
       s1 \<leftarrow> i2c_check_idle env 0x5 s;
       s2 \<leftarrow> i2c_check_idle env 0x5 (assert_cond env SEN s1);
       s3 \<leftarrow> wait_ack env (load_SSPBUF env (address_byte adrs rw) (arm env s2));
       Some (return_ACKSTAT env s3)
     }"

text \<open>\<^verbatim>\<open>i2c_rstart\<close>: the same text with \<^verbatim>\<open>SSPCON2bits.RSEN = 1\<close>.\<close>

definition i2c_rstart :: "env \<Rightarrow> byte \<Rightarrow> byte \<Rightarrow> state \<Rightarrow> (int \<times> state) option" where
  "i2c_rstart env adrs rw s =
     do {
       s1 \<leftarrow> i2c_check_idle env 0x5 s;
       s2 \<leftarrow> i2c_check_idle env 0x5 (assert_cond env RSEN s1);
       s3 \<leftarrow> wait_ack env (load_SSPBUF env (address_byte adrs rw) (arm env s2));
       Some (return_ACKSTAT env s3)
     }"

text \<open>
  \<^verbatim>\<open>
  void i2c_stop(void)
  {
      i2c_check_idle(0x5);
      SSPCON2bits.PEN = 1;
  }
  \<close>
\<close>

definition i2c_stop :: "env \<Rightarrow> state \<Rightarrow> state option" where
  "i2c_stop env s =
     do {
       s1 \<leftarrow> i2c_check_idle env 0x5 s;
       Some (assert_cond env PEN s1)
     }"

text \<open>
  \<^verbatim>\<open>
  int i2c_send(char dt)
  {
      i2c_check_idle(0x5);
      ack_flag = 1;
      SSPBUF = dt;
      while (ack_flag);       // Wait ACK
      return SSPCON2bits.ACKSTAT;
  }
  \<close>
\<close>

definition i2c_send :: "env \<Rightarrow> byte \<Rightarrow> state \<Rightarrow> (int \<times> state) option" where
  "i2c_send env dt s =
     do {
       s1 \<leftarrow> i2c_check_idle env 0x5 s;
       s2 \<leftarrow> wait_ack env (load_SSPBUF env dt (arm env s1));
       Some (return_ACKSTAT env s2)
     }"

text \<open>
  \<^verbatim>\<open>
  char i2c_receive(int ack)
  {
      char dt;
      i2c_check_idle(0x5);
      SSPCON2bits.RCEN = 1;      // Enable receive
      i2c_check_idle(0x4);
      dt = SSPBUF;               // Receive data
      i2c_check_idle(0x5);
      SSPCON2bits.ACKDT = ack;
      SSPCON2bits.ACKEN = 1;     // Response ACK
      return dt;
  }
  \<close>
\<close>

definition i2c_receive :: "env \<Rightarrow> int \<Rightarrow> state \<Rightarrow> (byte \<times> state) option" where
  "i2c_receive env ack s =
     do {
       s1 \<leftarrow> i2c_check_idle env 0x5 s;
       s2 \<leftarrow> i2c_check_idle env 0x4 (assert_cond env RCEN s1);
       let (dt, s3) = fetch_SSPBUF env s2;
       s4 \<leftarrow> i2c_check_idle env 0x5 s3;
       Some (dt, assert_cond env ACKEN (set_ACKDT env ack s4))
     }"

section \<open>Observations\<close>

text \<open>
  The log read without the handler's entries is what the main path did; read through
  \<open>bridge\<close> it is the history of \<^verbatim>\<open>ack_flag\<close>: armed, cleared by the handler,
  wait loop left.
\<close>

definition program :: "action list \<Rightarrow> action list" where
  "program tr = filter (\<lambda>a. a \<noteq> Handler_cleared) tr"

definition bridge :: "action list \<Rightarrow> action list" where
  "bridge tr = filter (\<lambda>a. a = Arm \<or> a = Handler_cleared \<or> a = Released) tr"

text \<open>
  At the coming tick the dispatcher calls the handler and the handler finds the
  completion signal pending.
\<close>

definition signalled :: "env \<Rightarrow> state \<Rightarrow> bool" where
  "signalled env s \<longleftrightarrow>
     dispatch (env (clock s)) \<and> SSPIF (hardware (env (clock s)) (hw s))"

text \<open>
  The condition under which \<^verbatim>\<open>i2c_check_idle\<close> is documented to return, in the words
  of its comment: the five condition bits of \<^verbatim>\<open>SSPCON2\<close> are zero, and so is every bit
  of \<^verbatim>\<open>SSPSTAT\<close> that the mask selects. It is a condition on a value of each register.
\<close>

definition quiescent :: "byte \<Rightarrow> byte \<Rightarrow> byte \<Rightarrow> bool" where
  "quiescent msk con2 stat \<longleftrightarrow>
     \<not> bit con2 (field_bit SEN) \<and> \<not> bit con2 (field_bit RSEN) \<and>
     \<not> bit con2 (field_bit PEN) \<and> \<not> bit con2 (field_bit RCEN) \<and>
     \<not> bit con2 (field_bit ACKEN) \<and>
     (\<forall>n \<in> {0..<8}. bit msk n \<longrightarrow> \<not> bit stat n)"

text \<open>The hardware is idle under a mask: both registers, as they stand, are quiescent.\<close>

definition idle :: "byte \<Rightarrow> regs \<Rightarrow> bool" where
  "idle msk r \<longleftrightarrow> quiescent msk (SSPCON2 r) (SSPSTAT r)"

text \<open>
  What poll \<open>k\<close> of a wait for idle that starts in state \<open>s\<close> reads: \<^verbatim>\<open>SSPCON2\<close>
  after \<open>2k + 1\<close> ticks and \<^verbatim>\<open>SSPSTAT\<close> after \<open>2k + 2\<close>.
\<close>

definition con2_read :: "env \<Rightarrow> state \<Rightarrow> nat \<Rightarrow> byte" where
  "con2_read env s k = SSPCON2 (hw (ticks env (2 * k + 1) s))"

definition stat_read :: "env \<Rightarrow> state \<Rightarrow> nat \<Rightarrow> byte" where
  "stat_read env s k = SSPSTAT (hw (ticks env (2 * k + 2) s))"

text \<open>
  The divisor of the bus clock as the specification gives it:
  \<open>CPU_clock / (4 \<times> bus_rate) - 1\<close>.
\<close>

definition spec_divisor :: "nat \<Rightarrow> nat \<Rightarrow> nat" where
  "spec_divisor cpu_clock bus_rate = cpu_clock div (4 * bus_rate) - 1"

text \<open>
  While \<^verbatim>\<open>ack_flag\<close> is 1 the handler still owes the entry for clearing it. The
  history of the flag with that entry added does not change when a tick passes.
\<close>

definition owed :: "state \<Rightarrow> action list" where
  "owed s = (if ack_flag s = 1 then [Handler_cleared] else [])"

definition rendezvous :: "state \<Rightarrow> action list" where
  "rendezvous s = bridge (trace s) @ owed s"

text \<open>
  Between two states \<^verbatim>\<open>ack_flag\<close> has changed, if at all, in the only way the handler
  changes it: from 1 to 0.
\<close>

definition handler_only :: "state \<Rightarrow> state \<Rightarrow> bool" where
  "handler_only s s' \<longleftrightarrow> ack_flag s' = ack_flag s \<or> ack_flag s = 1 \<and> ack_flag s' = 0"


text \<open>
  The mirror image of a run: the places of \<^verbatim>\<open>SEN\<close> and \<^verbatim>\<open>RSEN\<close> exchanged, in
  \<^verbatim>\<open>SSPCON2\<close>, in the log, and in what the hardware does with the two bits.
\<close>

definition exchange :: "byte \<Rightarrow> byte" where
  "exchange x =
     (if bit x (field_bit SEN) then set_bit else unset_bit) (field_bit RSEN)
       ((if bit x (field_bit RSEN) then set_bit else unset_bit) (field_bit SEN) x)"

fun mirror_action :: "action \<Rightarrow> action" where
  "mirror_action (Field SEN b) = Field RSEN b"
| "mirror_action (Field RSEN b) = Field SEN b"
| "mirror_action a = a"

definition mirror_regs :: "regs \<Rightarrow> regs" where
  "mirror_regs r = r\<lparr>SSPCON2 := exchange (SSPCON2 r)\<rparr>"

definition mirror :: "state \<Rightarrow> state" where
  "mirror s = s\<lparr>hw := mirror_regs (hw s), trace := map mirror_action (trace s)\<rparr>"

definition mirror_env :: "env \<Rightarrow> env" where
  "mirror_env env =
     (\<lambda>n. \<lparr>hardware = (\<lambda>r. mirror_regs (hardware (env n) (mirror_regs r))),
            dispatch = dispatch (env n)\<rparr>)"

text \<open>
  The sequence the specification gives for \<open>start\<close> and, with the other condition, for
  \<open>repeatedStart\<close>: idle wait, the condition, idle wait, the flag armed, the address byte
  loaded, the wait for the handshake, the acknowledgement status read and returned.
\<close>

definition start_actions :: "con2_field \<Rightarrow> byte \<Rightarrow> byte \<Rightarrow> int \<Rightarrow> action list" where
  "start_actions c adrs rw r =
     [Idle_wait 0x5, Assert c, Idle_wait 0x5, Arm, Transmit (address_byte adrs rw),
      Released, Ack_status (r = 1)]"

section \<open>Kinds of environment\<close>

text \<open>
  From some tick on the hardware leaves the bus idle under mask \<open>0x5\<close>, whatever the
  registers held: every condition the driver asserts is completed within a tick.
\<close>

definition settles :: "env \<Rightarrow> bool" where
  "settles env \<longleftrightarrow> (\<exists>k. \<forall>j\<ge>k. \<forall>r. idle 0x5 (hardware (env j) r))"

text \<open>
  Again and again there is a tick at which the completion signal is pending and the
  dispatcher calls the handler; and the opposite, an environment in which that never
  happens.
\<close>

definition signals :: "env \<Rightarrow> bool" where
  "signals env \<longleftrightarrow> (\<forall>n. \<exists>k\<ge>n. \<forall>r. dispatch (env k) \<and> SSPIF (hardware (env k) r))"

definition never_signals :: "env \<Rightarrow> bool" where
  "never_signals env \<longleftrightarrow> (\<forall>n r. \<not> (dispatch (env n) \<and> SSPIF (hardware (env n) r)))"

text \<open>
  Hardware that never changes the transmit buffer, as a peripheral does that is not
  receiving; hardware that never changes \<^verbatim>\<open>ACKDT\<close>, a bit only software writes; and
  hardware that does not look at the two pending indicators: apart from the indicators
  themselves, what a step leaves in the registers does not depend on them.
\<close>

definition keeps_SSPBUF :: "env \<Rightarrow> bool" where
  "keeps_SSPBUF env \<longleftrightarrow> (\<forall>n r. SSPBUF (hardware (env n) r) = SSPBUF r)"

definition keeps_ACKDT :: "env \<Rightarrow> bool" where
  "keeps_ACKDT env \<longleftrightarrow>
     (\<forall>n r. bit (SSPCON2 (hardware (env n) r)) (field_bit ACKDT) =
            bit (SSPCON2 r) (field_bit ACKDT))"

definition oblivious :: "env \<Rightarrow> bool" where
  "oblivious env \<longleftrightarrow>
     (\<forall>n r x y.
        (hardware (env n) (r\<lparr>SSPIF := x, BCLIF := y\<rparr>))\<lparr>SSPIF := False, BCLIF := False\<rparr> =
        (hardware (env n) r)\<lparr>SSPIF := False, BCLIF := False\<rparr>)"

section \<open>A test bench\<close>

text \<open>
  The registers after reset, and a peripheral with a peer on the bus that answers within
  one tick: every condition completes, the completion signal is raised and dispatched,
  and \<^verbatim>\<open>ACKSTAT\<close> shows whether the peer left the byte unacknowledged; \<^verbatim>\<open>ACKDT\<close>
  and \<^verbatim>\<open>SSPBUF\<close> are left as the driver wrote them. The tardy peer is the same, but
  raises and dispatches the completion signal from tick \<open>k\<close> on only. The talker also
  puts the byte \<open>0x5A\<close> in the receive buffer. The silent bus never changes a register
  and never interrupts.
\<close>

definition reset_regs :: regs where
  "reset_regs = \<lparr>SSPCON1 = 0, SSPCON2 = 0, SSPSTAT = 0, SSPADD = 0, SSPBUF = 0,
     SSPIF = False, BCLIF = False, SSPIE = False, BCLIE = False, PEIE = False,
     GIE = False\<rparr>"

definition reset_state :: state where
  "reset_state = \<lparr>hw = reset_regs, ack_flag = 0, clock = 0, trace = []\<rparr>"

definition answer :: "bool \<Rightarrow> byte \<Rightarrow> byte" where
  "answer nack con2 =
     (if nack then set_bit else unset_bit) (field_bit ACKSTAT)
       (if bit con2 (field_bit ACKDT) then set_bit (field_bit ACKDT) 0 else 0)"

definition peer :: "bool \<Rightarrow> env" where
  "peer nack = (\<lambda>n. \<lparr>hardware = (\<lambda>r. r\<lparr>SSPCON2 := answer nack (SSPCON2 r),
                                           SSPSTAT := 0, SSPIF := True\<rparr>),
                      dispatch = True\<rparr>)"

definition tardy :: "nat \<Rightarrow> bool \<Rightarrow> env" where
  "tardy k nack = (\<lambda>n. \<lparr>hardware = (\<lambda>r. r\<lparr>SSPCON2 := answer nack (SSPCON2 r),
                                              SSPSTAT := 0, SSPIF := (k \<le> n)\<rparr>),
                         dispatch = (k \<le> n)\<rparr>)"


definition silent :: env where
  "silent = (\<lambda>n. \<lparr>hardware = (\<lambda>r. r), dispatch = False\<rparr>)"

text \<open>
  A bus that shows a transfer in progress (the \<^verbatim>\<open>R/W\<close> bit of \<^verbatim>\<open>SSPSTAT\<close>) for
  the first three ticks and nothing afterwards. A bus that is busy at every tick, with the
  buffer full at the even ticks and a start condition in progress at the odd ones.
  Hardware that shows a given sequence of register snapshots, one at each tick. A bus that
  changes no register and on which the handler is dispatched from tick 3 on.
\<close>

definition sluggish :: env where
  "sluggish = (\<lambda>n. \<lparr>hardware = (\<lambda>r. r\<lparr>SSPSTAT := (if n < 3 then 0x4 else 0)\<rparr>),
                       dispatch = False\<rparr>)"

definition flicker :: env where
  "flicker = (\<lambda>n. \<lparr>hardware = (\<lambda>r. if even n then r\<lparr>SSPCON2 := 0, SSPSTAT := 0x1\<rparr>
                                        else r\<lparr>SSPCON2 := 0x1, SSPSTAT := 0\<rparr>),
                      dispatch = False\<rparr>)"

definition playback :: "(nat \<Rightarrow> regs) \<Rightarrow> env" where
  "playback snaps = (\<lambda>n. \<lparr>hardware = (\<lambda>r. snaps n), dispatch = False\<rparr>)"

definition late :: env where
  "late = (\<lambda>n. \<lparr>hardware = (\<lambda>r. r), dispatch = (3 \<le> n)\<rparr>)"

text \<open>
  A state in which the buffer-full bit is set; a state in which only a bus conflict is
  pending while \<^verbatim>\<open>ack_flag\<close> is armed; a state in which the flag is clear and a
  completion signal is pending.
\<close>

definition stuck_state :: state where
  "stuck_state = reset_state\<lparr>hw := reset_regs\<lparr>SSPSTAT := 0x1\<rparr>\<rparr>"

definition conflict_state :: state where
  "conflict_state = reset_state\<lparr>hw := reset_regs\<lparr>BCLIF := True\<rparr>, ack_flag := 1\<rparr>"

definition pending_state :: state where
  "pending_state = reset_state\<lparr>hw := reset_regs\<lparr>SSPIF := True\<rparr>\<rparr>"

section \<open>Bits and bytes\<close>

lemma all_bits8:
  "(\<forall>n \<in> {0..<8::nat}. P n) \<longleftrightarrow> P 0 \<and> P 1 \<and> P 2 \<and> P 3 \<and> P 4 \<and> P 5 \<and> P 6 \<and> P 7"
proof -
  have "{0..<8::nat} = {0, 1, 2, 3, 4, 5, 6, 7}" by auto
  then show ?thesis by simp
qed

lemma masked_zero_iff:
  "(x :: byte) AND m = 0 \<longleftrightarrow> (\<forall>n. bit m n \<longrightarrow> \<not> bit x n)"
proof
  assume "x AND m = 0"
  then have "\<And>n. \<not> bit (x AND m) n" by simp
  then show "\<forall>n. bit m n \<longrightarrow> \<not> bit x n" by (auto simp add: bit_and_iff)
next
  assume "\<forall>n. bit m n \<longrightarrow> \<not> bit x n"
  then show "x AND m = 0" by (intro bit_eqI) (auto simp add: bit_and_iff)
qed

lemma low5_zero_iff: "(x :: byte) AND 0x1F = 0 \<longleftrightarrow> (\<forall>n<5. \<not> bit x n)"
proof -
  have m: "(0x1F :: byte) = mask 5" by (simp add: mask_eq_exp_minus_1)
  show ?thesis unfolding m masked_zero_iff by (auto simp add: bit_mask_iff)
qed

lemma not_busy_iff:
  "\<not> busy m c st \<longleftrightarrow> (\<forall>n<5. \<not> bit c n) \<and> (\<forall>n. bit m n \<longrightarrow> \<not> bit st n)"
proof -
  have "\<not> busy m c st \<longleftrightarrow> c AND 0x1F = 0 \<and> st AND m = 0"
    by (simp add: busy_def or_eq_0_iff)
  then show ?thesis by (simp only: low5_zero_iff masked_zero_iff [of _ m])
qed

lemma quiescent_iff_not_busy: "quiescent m c st \<longleftrightarrow> \<not> busy m c st"
proof -
  have five: "(\<forall>n<5. \<not> bit c n) \<longleftrightarrow>
      \<not> bit c 0 \<and> \<not> bit c 1 \<and> \<not> bit c 2 \<and> \<not> bit c 3 \<and> \<not> bit c 4" (is "?L \<longleftrightarrow> ?R")
  proof
    assume ?L then show ?R by simp
  next
    assume R: ?R
    show ?L
    proof (intro allI impI)
      fix n :: nat assume "n < 5"
      then consider "n = 0" | "n = 1" | "n = 2" | "n = 3" | "n = 4" by linarith
      then show "\<not> bit c n" using R by cases simp_all
    qed
  qed
  have sel: "(\<forall>n. bit m n \<longrightarrow> \<not> bit st n) \<longleftrightarrow> (\<forall>n \<in> {0..<8}. bit m n \<longrightarrow> \<not> bit st n)"
    using bit_imp_le_length [of m] by fastforce
  show ?thesis
    unfolding not_busy_iff five sel quiescent_def by simp
qed


lemma bit_field_set: "bit (set_bit (field_bit f) (x :: byte)) (field_bit f)"
  by (cases f) (simp_all add: bit_set_bit_iff)


lemma bit_32: "bit (32 :: byte) n \<longleftrightarrow> n = 5"
proof -
  have "(32 :: byte) = 2 ^ 5" by simp
  then show ?thesis by (simp only: bit_exp_iff) auto
qed

lemma bit_answer:
  "bit (answer nack x) n \<longleftrightarrow> (n = 5 \<and> bit x 5) \<or> (n = 6 \<and> nack)"
proof -
  have a: "bit (set_bit 5 (0 :: byte)) n \<longleftrightarrow> n = 5"
    by (simp only: bit_set_bit_iff) auto
  show ?thesis
    unfolding answer_def field_bit.simps
    by (cases nack; cases "bit x 5") (simp_all only: if_True if_False bit_set_bit_iff
        bit_unset_bit_iff a, auto)
qed

lemma answer_quiescent: "quiescent m (answer nack x) 0"
  by (simp add: quiescent_def bit_answer)

lemma address_byte_unat: "unat (address_byte a d) = (unat a * 2 + unat d) mod 256"
proof -
  have a: "unat a < 256" using unsigned_less [of a, where 'a = nat] by simp
  have d: "unat d < 256" using unsigned_less [of d, where 'a = nat] by simp
  have "unat (push_bit 1 (ucast a :: 16 word) + ucast d) = unat a * 2 + unat d"
    using a d
    by (simp add: unat_word_ariths unsigned_push_bit_eq unsigned_ucast_eq take_bit_eq_mod
        push_bit_eq_mult)
  then show ?thesis
    unfolding address_byte_def
    by (simp add: unsigned_ucast_eq take_bit_eq_mod)
qed

section \<open>One tick\<close>

lemma hw_i2c_interrupt: "hw (i2c_interrupt s) = (hw s)\<lparr>SSPIF := False, BCLIF := False\<rparr>"
  by (cases "hw s") (simp add: i2c_interrupt_def Let_def)

lemma ack_flag_i2c_interrupt:
  "ack_flag (i2c_interrupt s) = (if SSPIF (hw s) \<and> ack_flag s = 1 then 0 else ack_flag s)"
  by (simp add: i2c_interrupt_def Let_def)

lemma clock_i2c_interrupt: "clock (i2c_interrupt s) = clock s"
  by (simp add: i2c_interrupt_def Let_def)

lemma trace_i2c_interrupt: "trace (i2c_interrupt s) = trace s"
  by (simp add: i2c_interrupt_def Let_def)

lemma clock_tick: "clock (tick env s) = Suc (clock s)"
  by (simp add: tick_def Let_def logged_def)

lemma hw_tick:
  "hw (tick env s) =
     (if dispatch (env (clock s))
      then (hardware (env (clock s)) (hw s))\<lparr>SSPIF := False, BCLIF := False\<rparr>
      else hardware (env (clock s)) (hw s))"
  by (simp add: tick_def Let_def logged_def hw_i2c_interrupt)

lemma ack_flag_tick:
  "ack_flag (tick env s) = (if signalled env s \<and> ack_flag s = 1 then 0 else ack_flag s)"
  by (simp add: tick_def Let_def logged_def ack_flag_i2c_interrupt signalled_def)

lemma trace_tick:
  "trace (tick env s) =
     (if signalled env s \<and> ack_flag s = 1 then trace s @ [Handler_cleared] else trace s)"
  by (simp add: tick_def Let_def logged_def ack_flag_i2c_interrupt trace_i2c_interrupt
      signalled_def)

lemma clock_ticks: "clock (ticks env n s) = clock s + n"
  by (induction n arbitrary: s) (simp_all add: clock_tick)

lemma ticks_Suc_right: "ticks env (Suc n) s = tick env (ticks env n s)"
  by (induction n arbitrary: s) simp_all

section \<open>The wait loops\<close>

lemma reads_0:
  "con2_read env s 0 = SSPCON2 (hw (tick env s))"
  "stat_read env s 0 = SSPSTAT (hw (tick env (tick env s)))"
  by (simp_all add: con2_read_def stat_read_def numeral_2_eq_2)

lemma reads_Suc:
  "con2_read env s (Suc k) = con2_read env (tick env (tick env s)) k"
  "stat_read env s (Suc k) = stat_read env (tick env (tick env s)) k"
  by (simp_all add: con2_read_def stat_read_def)

lemma ticks_twice: "ticks env (2 * Suc n + 2) s = ticks env (2 * n + 2) (tick env (tick env s))"
  by simp

lemma i2c_check_idle_first:
  "\<not> busy m (con2_read env s n) (stat_read env s n) \<Longrightarrow>
   (\<forall>j<n. busy m (con2_read env s j) (stat_read env s j)) \<Longrightarrow>
   i2c_check_idle env m s = Some (logged (Idle_wait m) (ticks env (2 * n + 2) s))"
proof (induction n arbitrary: s)
  case 0
  then show ?case
    by (subst i2c_check_idle.simps) (simp add: Let_def reads_0 numeral_2_eq_2)
next
  case (Suc n)
  from Suc.prems(2) have b: "busy m (con2_read env s 0) (stat_read env s 0)" by blast
  from Suc.prems(2) have "\<forall>j<n. busy m (con2_read env (tick env (tick env s)) j)
      (stat_read env (tick env (tick env s)) j)"
    by (auto simp add: reads_Suc [symmetric])
  moreover from Suc.prems(1)
  have "\<not> busy m (con2_read env (tick env (tick env s)) n)
      (stat_read env (tick env (tick env s)) n)"
    by (simp add: reads_Suc)
  ultimately have "i2c_check_idle env m (tick env (tick env s)) =
      Some (logged (Idle_wait m) (ticks env (2 * n + 2) (tick env (tick env s))))"
    by (rule Suc.IH [rotated])
  with b show ?case
    by (subst i2c_check_idle.simps) (simp only: Let_def reads_0 if_True ticks_twice)
qed

lemma i2c_check_idle_Some:
  assumes "i2c_check_idle env m s = Some s'"
  shows "\<exists>n. \<not> busy m (con2_read env s n) (stat_read env s n) \<and>
       (\<forall>j<n. busy m (con2_read env s j) (stat_read env s j)) \<and>
       s' = logged (Idle_wait m) (ticks env (2 * n + 2) s)"
proof (rule i2c_check_idle.raw_induct [where P = "\<lambda>env m s s'.
     \<exists>n. \<not> busy m (con2_read env s n) (stat_read env s n) \<and>
       (\<forall>j<n. busy m (con2_read env s j) (stat_read env s j)) \<and>
       s' = logged (Idle_wait m) (ticks env (2 * n + 2) s)", OF _ assms])
  fix f env m s s'
  assume IH: "\<And>env m s s'. f env m s = Some s' \<Longrightarrow>
     \<exists>n. \<not> busy m (con2_read env s n) (stat_read env s n) \<and>
       (\<forall>j<n. busy m (con2_read env s j) (stat_read env s j)) \<and>
       s' = logged (Idle_wait m) (ticks env (2 * n + 2) s)"
    and step: "(let s1 = tick env s; con2 = SSPCON2 (hw s1);
          s2 = tick env s1; stat = SSPSTAT (hw s2)
      in if busy m con2 stat then f env m s2
         else Some (logged (Idle_wait m) s2)) = Some s'"
  show "\<exists>n. \<not> busy m (con2_read env s n) (stat_read env s n) \<and>
       (\<forall>j<n. busy m (con2_read env s j) (stat_read env s j)) \<and>
       s' = logged (Idle_wait m) (ticks env (2 * n + 2) s)"
  proof (cases "busy m (con2_read env s 0) (stat_read env s 0)")
    case True
    with step have "f env m (tick env (tick env s)) = Some s'"
      by (simp add: Let_def reads_0)
    from IH [OF this] obtain n
      where n: "\<not> busy m (con2_read env (tick env (tick env s)) n)
                  (stat_read env (tick env (tick env s)) n)"
        "\<forall>j<n. busy m (con2_read env (tick env (tick env s)) j)
                  (stat_read env (tick env (tick env s)) j)"
        "s' = logged (Idle_wait m) (ticks env (2 * n + 2) (tick env (tick env s)))" by blast
    have "\<forall>j<Suc n. busy m (con2_read env s j) (stat_read env s j)"
    proof (intro allI impI)
      fix j assume "j < Suc n"
      then show "busy m (con2_read env s j) (stat_read env s j)"
        using True n(2) by (cases j) (simp_all add: reads_Suc)
    qed
    moreover from n(1) have "\<not> busy m (con2_read env s (Suc n)) (stat_read env s (Suc n))"
      by (simp add: reads_Suc)
    moreover from n(3) have "s' = logged (Idle_wait m) (ticks env (2 * Suc n + 2) s)"
      by (simp only: ticks_twice)
    ultimately show ?thesis by blast
  next
    case False
    with step have "s' = logged (Idle_wait m) (tick env (tick env s))"
      by (simp add: Let_def reads_0)
    then have "s' = logged (Idle_wait m) (ticks env (2 * 0 + 2) s)"
      by (simp add: numeral_2_eq_2)
    with False show ?thesis by blast
  qed
qed

lemma i2c_check_idle_None:
  "i2c_check_idle env m s = None \<longleftrightarrow> (\<forall>n. busy m (con2_read env s n) (stat_read env s n))"
proof
  assume none: "i2c_check_idle env m s = None"
  show "\<forall>n. busy m (con2_read env s n) (stat_read env s n)"
  proof (rule ccontr)
    assume "\<not> (\<forall>n. busy m (con2_read env s n) (stat_read env s n))"
    then have ex: "\<exists>n. \<not> busy m (con2_read env s n) (stat_read env s n)" by simp
    define k where "k = (LEAST n. \<not> busy m (con2_read env s n) (stat_read env s n))"
    have k1: "\<not> busy m (con2_read env s k) (stat_read env s k)"
      unfolding k_def using ex by (rule LeastI_ex)
    have k2: "\<forall>j<k. busy m (con2_read env s j) (stat_read env s j)"
      unfolding k_def using not_less_Least by blast
    from i2c_check_idle_first [OF k1 k2] none show False by simp
  qed
next
  assume "\<forall>n. busy m (con2_read env s n) (stat_read env s n)"
  then show "i2c_check_idle env m s = None"
    using i2c_check_idle_Some [of env m s] by (cases "i2c_check_idle env m s") auto
qed

lemma i2c_check_idle_now:
  "\<not> busy m (SSPCON2 (hw (tick env s))) (SSPSTAT (hw (tick env (tick env s)))) \<Longrightarrow>
   i2c_check_idle env m s = Some (logged (Idle_wait m) (tick env (tick env s)))"
  by (subst i2c_check_idle.simps) (simp add: Let_def)

lemma i2c_check_idle_again:
  "busy m (SSPCON2 (hw (tick env s))) (SSPSTAT (hw (tick env (tick env s)))) \<Longrightarrow>
   i2c_check_idle env m s = i2c_check_idle env m (tick env (tick env s))"
  by (subst i2c_check_idle.simps) (simp add: Let_def)

lemma wait_ack_first:
  "ack_flag (ticks env (Suc n) s) = 0 \<Longrightarrow>
   (\<forall>j<n. ack_flag (ticks env (Suc j) s) \<noteq> 0) \<Longrightarrow>
   wait_ack env s = Some (logged Released (ticks env (Suc n) s))"
proof (induction n arbitrary: s)
  case 0
  then show ?case by (subst wait_ack.simps) (simp add: Let_def)
next
  case (Suc n)
  from Suc.prems(2) have b: "ack_flag (tick env s) \<noteq> 0" by force
  from Suc.prems(2) have "\<forall>j<n. ack_flag (ticks env (Suc j) (tick env s)) \<noteq> 0" by force
  with Suc.IH [of "tick env s"] Suc.prems(1)
  have "wait_ack env (tick env s) = Some (logged Released (ticks env (Suc (Suc n)) s))"
    by simp
  with b show ?case by (subst wait_ack.simps) (simp add: Let_def)
qed

lemma wait_ack_Some:
  assumes "wait_ack env s = Some s'"
  shows "\<exists>n. ack_flag (ticks env (Suc n) s) = 0 \<and> (\<forall>j<n. ack_flag (ticks env (Suc j) s) \<noteq> 0)
       \<and> s' = logged Released (ticks env (Suc n) s)"
proof (rule wait_ack.raw_induct [where P = "\<lambda>env s s'.
     \<exists>n. ack_flag (ticks env (Suc n) s) = 0 \<and> (\<forall>j<n. ack_flag (ticks env (Suc j) s) \<noteq> 0)
       \<and> s' = logged Released (ticks env (Suc n) s)", OF _ assms])
  fix f env s s'
  assume IH: "\<And>env s s'. f env s = Some s' \<Longrightarrow>
     \<exists>n. ack_flag (ticks env (Suc n) s) = 0 \<and> (\<forall>j<n. ack_flag (ticks env (Suc j) s) \<noteq> 0)
       \<and> s' = logged Released (ticks env (Suc n) s)"
    and step: "(let s' = tick env s in if ack_flag s' \<noteq> 0 then f env s'
         else Some (logged Released s')) = Some s'"
  show "\<exists>n. ack_flag (ticks env (Suc n) s) = 0 \<and> (\<forall>j<n. ack_flag (ticks env (Suc j) s) \<noteq> 0)
       \<and> s' = logged Released (ticks env (Suc n) s)"
  proof (cases "ack_flag (tick env s) \<noteq> 0")
    case True
    with step have "f env (tick env s) = Some s'" by (simp add: Let_def)
    from IH [OF this] obtain n where n: "ack_flag (ticks env (Suc n) (tick env s)) = 0"
      "\<forall>j<n. ack_flag (ticks env (Suc j) (tick env s)) \<noteq> 0"
      "s' = logged Released (ticks env (Suc n) (tick env s))" by blast
    have "\<forall>j<Suc n. ack_flag (ticks env (Suc j) s) \<noteq> 0"
    proof (intro allI impI)
      fix j assume "j < Suc n"
      then show "ack_flag (ticks env (Suc j) s) \<noteq> 0"
        using True n(2) by (cases j) simp_all
    qed
    with n(1,3) show ?thesis by (intro exI [of _ "Suc n"]) simp
  next
    case False
    with step have "s' = logged Released (tick env s)" by (simp add: Let_def)
    with False show ?thesis by (intro exI [of _ 0]) simp
  qed
qed

lemma wait_ack_None:
  "wait_ack env s = None \<longleftrightarrow> (\<forall>n. ack_flag (ticks env (Suc n) s) \<noteq> 0)"
proof
  assume none: "wait_ack env s = None"
  show "\<forall>n. ack_flag (ticks env (Suc n) s) \<noteq> 0"
  proof (rule ccontr)
    assume "\<not> (\<forall>n. ack_flag (ticks env (Suc n) s) \<noteq> 0)"
    then have ex: "\<exists>n. ack_flag (ticks env (Suc n) s) = 0" by simp
    define k where "k = (LEAST n. ack_flag (ticks env (Suc n) s) = 0)"
    have k1: "ack_flag (ticks env (Suc k) s) = 0"
      unfolding k_def using ex by (rule LeastI_ex)
    have k2: "\<forall>j<k. ack_flag (ticks env (Suc j) s) \<noteq> 0"
      unfolding k_def using not_less_Least by blast
    from wait_ack_first [OF k1 k2] none show False by simp
  qed
next
  assume "\<forall>n. ack_flag (ticks env (Suc n) s) \<noteq> 0"
  then show "wait_ack env s = None"
    using wait_ack_Some [of env s] by (cases "wait_ack env s") auto
qed

lemma wait_ack_now:
  "ack_flag (tick env s) = 0 \<Longrightarrow> wait_ack env s = Some (logged Released (tick env s))"
  by (subst wait_ack.simps) (simp add: Let_def)

section \<open>What the log shows of one statement\<close>

lemma program_append: "program (xs @ ys) = program xs @ program ys"
  by (simp add: program_def)

lemma bridge_append: "bridge (xs @ ys) = bridge xs @ bridge ys"
  by (simp add: bridge_def)

lemma program_tick: "program (trace (tick env s)) = program (trace s)"
  by (simp add: trace_tick program_def)

lemma program_ticks: "program (trace (ticks env n s)) = program (trace s)"
  by (induction n arbitrary: s) (simp_all add: program_tick)

lemma rendezvous_tick: "rendezvous (tick env s) = rendezvous s"
  by (simp add: rendezvous_def owed_def trace_tick ack_flag_tick bridge_def)

lemma rendezvous_ticks: "rendezvous (ticks env n s) = rendezvous s"
  by (induction n arbitrary: s) (simp_all add: rendezvous_tick)

lemma ack_flag_ticks: "ack_flag (ticks env n s) = ack_flag s \<or> ack_flag s = 1 \<and> ack_flag (ticks env n s) = 0"
proof (induction n)
  case 0
  then show ?case by simp
next
  case (Suc n)
  have "ack_flag (ticks env (Suc n) s) = ack_flag (ticks env n s) \<or>
        ack_flag (ticks env n s) = 1 \<and> ack_flag (ticks env (Suc n) s) = 0"
    by (simp only: ticks_Suc_right ack_flag_tick) simp
  with Suc show ?case by auto
qed

lemma ack_flag_ticks_clear: "ack_flag s = 0 \<Longrightarrow> ack_flag (ticks env n s) = 0"
  using ack_flag_ticks [of env n s] by auto

lemma logged_simps:
  "hw (logged a s) = hw s" "ack_flag (logged a s) = ack_flag s"
  "clock (logged a s) = clock s" "trace (logged a s) = trace s @ [a]"
  by (simp_all add: logged_def)

lemma poke_simps:
  "hw (poke env f obs s) = f (hw (tick env s))"
  "ack_flag (poke env f obs s) = ack_flag (tick env s)"
  "clock (poke env f obs s) = Suc (clock s)"
  "trace (poke env f obs s) = trace (tick env s) @ [obs (f (hw (tick env s)))]"
  by (simp_all add: poke_def Let_def logged_def clock_tick)

lemma program_poke:
  "obs (f (hw (tick env s))) = a \<Longrightarrow> a \<noteq> Handler_cleared \<Longrightarrow>
   program (trace (poke env f obs s)) = program (trace s) @ [a]"
  by (simp add: poke_simps program_append program_tick) (simp add: program_def)

lemma rendezvous_poke:
  "obs (f (hw (tick env s))) = a \<Longrightarrow>
   a \<noteq> Handler_cleared \<Longrightarrow> a \<noteq> Arm \<Longrightarrow> a \<noteq> Released \<Longrightarrow>
   rendezvous (poke env f obs s) = rendezvous s"
  using rendezvous_tick [of env s]
  by (simp add: rendezvous_def owed_def poke_simps bridge_def)

lemma assert_cond_simps:
  "hw (assert_cond env f s) =
     (hw (tick env s))\<lparr>SSPCON2 := set_bit (field_bit f) (SSPCON2 (hw (tick env s)))\<rparr>"
  "ack_flag (assert_cond env f s) = ack_flag (tick env s)"
  "clock (assert_cond env f s) = Suc (clock s)"
  "trace (assert_cond env f s) = trace (tick env s) @ [Assert f]"
  by (simp_all add: assert_cond_def poke_simps bit_field_set del: field_bit.simps)


lemma load_SSPBUF_simps:
  "hw (load_SSPBUF env v s) = (hw (tick env s))\<lparr>SSPBUF := v\<rparr>"
  "ack_flag (load_SSPBUF env v s) = ack_flag (tick env s)"
  "clock (load_SSPBUF env v s) = Suc (clock s)"
  "trace (load_SSPBUF env v s) = trace (tick env s) @ [Transmit v]"
  by (simp_all add: load_SSPBUF_def poke_simps)

lemma program_assert_cond:
  "program (trace (assert_cond env f s)) = program (trace s) @ [Assert f]"
  by (simp add: assert_cond_simps program_append program_tick) (simp add: program_def)


lemma program_load_SSPBUF:
  "program (trace (load_SSPBUF env v s)) = program (trace s) @ [Transmit v]"
  by (simp add: load_SSPBUF_simps program_append program_tick) (simp add: program_def)

lemma rendezvous_assert_cond: "rendezvous (assert_cond env f s) = rendezvous s"
  using rendezvous_tick [of env s]
  by (simp add: rendezvous_def owed_def assert_cond_simps bridge_def)

lemma rendezvous_load_SSPBUF: "rendezvous (load_SSPBUF env v s) = rendezvous s"
  using rendezvous_tick [of env s]
  by (simp add: rendezvous_def owed_def load_SSPBUF_simps bridge_def)

lemma arm_simps:
  "hw (arm env s) = hw (tick env s)" "ack_flag (arm env s) = 1"
  "clock (arm env s) = Suc (clock s)" "trace (arm env s) = trace (tick env s) @ [Arm]"
  by (simp_all add: arm_def Let_def logged_def clock_tick)

lemma program_arm: "program (trace (arm env s)) = program (trace s) @ [Arm]"
  by (simp add: arm_simps program_append program_tick) (simp add: program_def)

lemma rendezvous_arm:
  "ack_flag s \<noteq> 1 \<Longrightarrow> rendezvous (arm env s) = rendezvous s @ [Arm, Handler_cleared]"
  by (simp add: rendezvous_def owed_def arm_simps trace_tick bridge_def)

section \<open>What the log shows of one wait loop\<close>

lemma i2c_check_idle_program:
  "i2c_check_idle env m s = Some s' \<Longrightarrow> program (trace s') = program (trace s) @ [Idle_wait m]"
  by (drule i2c_check_idle_Some)
     (auto simp add: logged_simps program_append program_ticks simp del: ticks.simps, simp add: program_def)

lemma i2c_check_idle_rendezvous:
  "i2c_check_idle env m s = Some s' \<Longrightarrow> rendezvous s' = rendezvous s"
proof -
  assume "i2c_check_idle env m s = Some s'"
  then obtain n where "s' = logged (Idle_wait m) (ticks env (2 * n + 2) s)"
    by (blast dest: i2c_check_idle_Some)
  then have "rendezvous s' = rendezvous (ticks env (2 * n + 2) s)"
    by (simp add: rendezvous_def owed_def logged_simps bridge_def del: ticks.simps)
  then show ?thesis by (simp only: rendezvous_ticks)
qed

lemma i2c_check_idle_ack_flag:
  "i2c_check_idle env m s = Some s' \<Longrightarrow>
   ack_flag s' = ack_flag s \<or> ack_flag s = 1 \<and> ack_flag s' = 0"
proof -
  assume "i2c_check_idle env m s = Some s'"
  then obtain n where "s' = logged (Idle_wait m) (ticks env (2 * n + 2) s)"
    by (blast dest: i2c_check_idle_Some)
  then show ?thesis using ack_flag_ticks [of env "2 * n + 2" s]
    by (simp add: logged_simps del: ticks.simps)
qed

lemma i2c_check_idle_clock:
  "i2c_check_idle env m s = Some s' \<Longrightarrow> \<exists>n. clock s' = clock s + 2 * n + 2"
  by (drule i2c_check_idle_Some) (auto simp add: logged_simps clock_ticks simp del: ticks.simps)

lemma wait_ack_program:
  "wait_ack env s = Some s' \<Longrightarrow> program (trace s') = program (trace s) @ [Released]"
  by (drule wait_ack_Some)
     (auto simp add: logged_simps program_append program_ticks simp del: ticks.simps, simp add: program_def)

lemma wait_ack_ack_flag: "wait_ack env s = Some s' \<Longrightarrow> ack_flag s' = 0"
  by (drule wait_ack_Some) (auto simp add: logged_simps simp del: ticks.simps)

lemma wait_ack_rendezvous:
  "wait_ack env s = Some s' \<Longrightarrow> bridge (trace s') = rendezvous s @ [Released]"
proof -
  assume "wait_ack env s = Some s'"
  then obtain n where n: "ack_flag (ticks env (Suc n) s) = 0"
    "s' = logged Released (ticks env (Suc n) s)"
    by (blast dest: wait_ack_Some)
  from n(1) have "rendezvous (ticks env (Suc n) s) = bridge (trace (ticks env (Suc n) s))"
    by (simp add: rendezvous_def owed_def del: ticks.simps)
  then have "bridge (trace (ticks env (Suc n) s)) = rendezvous s"
    by (simp only: rendezvous_ticks)
  with n(2) show ?thesis
    by (simp add: logged_simps bridge_append del: ticks.simps) (simp add: bridge_def)
qed

lemma return_ACKSTAT_simps:
  "fst (return_ACKSTAT env s) = (if bit (SSPCON2 (hw (tick env s))) 6 then 1 else 0)"
  "hw (snd (return_ACKSTAT env s)) = hw (tick env s)"
  "ack_flag (snd (return_ACKSTAT env s)) = ack_flag (tick env s)"
  "clock (snd (return_ACKSTAT env s)) = Suc (clock s)"
  "trace (snd (return_ACKSTAT env s)) =
     trace (tick env s) @ [Ack_status (bit (SSPCON2 (hw (tick env s))) 6)]"
  by (simp_all add: return_ACKSTAT_def Let_def logged_def clock_tick)


section \<open>The operations, step by step\<close>

lemma i2c_send_steps:
  assumes "i2c_send env dt s = Some (r, s')"
  obtains s1 s2 where "i2c_check_idle env 0x5 s = Some s1"
    and "wait_ack env (load_SSPBUF env dt (arm env s1)) = Some s2"
    and "return_ACKSTAT env s2 = (r, s')"
  using assms by (auto simp add: i2c_send_def bind_eq_Some_conv)

lemma i2c_start_steps:
  assumes "i2c_start env adrs rw s = Some (r, s')"
  obtains s1 s2 s3 where "i2c_check_idle env 0x5 s = Some s1"
    and "i2c_check_idle env 0x5 (assert_cond env SEN s1) = Some s2"
    and "wait_ack env (load_SSPBUF env (address_byte adrs rw) (arm env s2)) = Some s3"
    and "return_ACKSTAT env s3 = (r, s')"
  using assms by (auto simp add: i2c_start_def bind_eq_Some_conv)

lemma i2c_rstart_steps:
  assumes "i2c_rstart env adrs rw s = Some (r, s')"
  obtains s1 s2 s3 where "i2c_check_idle env 0x5 s = Some s1"
    and "i2c_check_idle env 0x5 (assert_cond env RSEN s1) = Some s2"
    and "wait_ack env (load_SSPBUF env (address_byte adrs rw) (arm env s2)) = Some s3"
    and "return_ACKSTAT env s3 = (r, s')"
  using assms by (auto simp add: i2c_rstart_def bind_eq_Some_conv)



text \<open>The tail shared by \<^verbatim>\<open>i2c_start\<close>, \<^verbatim>\<open>i2c_rstart\<close> and \<^verbatim>\<open>i2c_send\<close>.\<close>

lemma handshake_program:
  assumes "wait_ack env (load_SSPBUF env v (arm env s)) = Some s2"
    and "return_ACKSTAT env s2 = (r, s')"
  shows "program (trace s') = program (trace s) @ [Arm, Transmit v, Released, Ack_status (r = 1)]"
proof -
  have "program (trace (load_SSPBUF env v (arm env s))) = program (trace s) @ [Arm, Transmit v]"
    by (simp add: program_load_SSPBUF program_arm)
  with wait_ack_program [OF assms(1)]
  have "program (trace s2) = program (trace s) @ [Arm, Transmit v, Released]" by simp
  moreover from assms(2) have "trace s' = trace (tick env s2) @ [Ack_status (r = 1)]"
    by (auto simp add: return_ACKSTAT_def Let_def logged_def)
  ultimately show ?thesis
    by (simp add: program_append program_tick) (simp add: program_def)
qed

lemma handshake_returns:
  assumes "wait_ack env x = Some s2" and "return_ACKSTAT env s2 = (r, s')"
  shows "ack_flag s' = 0" and "r = (if bit (SSPCON2 (hw s')) (field_bit ACKSTAT) then 1 else 0)"
proof -
  from wait_ack_ack_flag [OF assms(1)] have "ack_flag (tick env s2) = 0"
    by (simp add: ack_flag_tick)
  with assms(2) show "ack_flag s' = 0"
    by (auto simp add: return_ACKSTAT_def Let_def logged_def)
  from assms(2) show "r = (if bit (SSPCON2 (hw s')) (field_bit ACKSTAT) then 1 else 0)"
    by (auto simp add: return_ACKSTAT_def Let_def logged_def)
qed

lemma handshake_rendezvous:
  assumes "ack_flag s \<noteq> 1"
    and "wait_ack env (load_SSPBUF env v (arm env s)) = Some s2"
    and "return_ACKSTAT env s2 = (r, s')"
  shows "bridge (trace s') = rendezvous s @ [Arm, Handler_cleared, Released]"
proof -
  have "rendezvous (load_SSPBUF env v (arm env s)) = rendezvous s @ [Arm, Handler_cleared]"
    by (simp add: rendezvous_load_SSPBUF rendezvous_arm [OF assms(1)])
  with wait_ack_rendezvous [OF assms(2)]
  have b: "bridge (trace s2) = rendezvous s @ [Arm, Handler_cleared, Released]" by simp
  from wait_ack_ack_flag [OF assms(2)] have "trace (tick env s2) = trace s2"
    by (simp add: trace_tick)
  with assms(3) have "trace s' = trace s2 @ [Ack_status (r = 1)]"
    by (auto simp add: return_ACKSTAT_def Let_def logged_def)
  with b show ?thesis by (simp add: bridge_append) (simp add: bridge_def)
qed


lemma start_like_program:
  assumes 1: "i2c_check_idle env 0x5 s = Some s1"
    and 2: "i2c_check_idle env 0x5 (assert_cond env c s1) = Some s2"
    and 3: "wait_ack env (load_SSPBUF env v (arm env s2)) = Some s3"
    and 4: "return_ACKSTAT env s3 = (r, s')"
  shows "program (trace s') =
     program (trace s) @ [Idle_wait 0x5, Assert c, Idle_wait 0x5, Arm, Transmit v,
       Released, Ack_status (r = 1)]"
proof -
  have "program (trace (assert_cond env c s1)) = program (trace s) @ [Idle_wait 0x5, Assert c]"
    by (simp add: program_assert_cond i2c_check_idle_program [OF 1])
  with i2c_check_idle_program [OF 2]
  have "program (trace s2) = program (trace s) @ [Idle_wait 0x5, Assert c, Idle_wait 0x5]"
    by simp
  with handshake_program [OF 3 4] show ?thesis by simp
qed

lemma i2c_start_program:
  assumes "i2c_start env adrs rw s = Some (r, s')"
  shows "program (trace s') =
     program (trace s) @ [Idle_wait 0x5, Assert SEN, Idle_wait 0x5, Arm,
       Transmit (address_byte adrs rw), Released, Ack_status (r = 1)]"
  using assms by (elim i2c_start_steps) (rule start_like_program)

lemma i2c_rstart_program:
  assumes "i2c_rstart env adrs rw s = Some (r, s')"
  shows "program (trace s') =
     program (trace s) @ [Idle_wait 0x5, Assert RSEN, Idle_wait 0x5, Arm,
       Transmit (address_byte adrs rw), Released, Ack_status (r = 1)]"
  using assms by (elim i2c_rstart_steps) (rule start_like_program)



section \<open>The flag across an operation\<close>

lemma rendezvous_unarmed: "ack_flag s \<noteq> 1 \<Longrightarrow> rendezvous s = bridge (trace s)"
  by (simp add: rendezvous_def owed_def)

lemma i2c_check_idle_unarmed:
  "i2c_check_idle env m s = Some s' \<Longrightarrow> ack_flag s \<noteq> 1 \<Longrightarrow> ack_flag s' \<noteq> 1"
  using i2c_check_idle_ack_flag [of env m s s'] by auto

lemma assert_cond_unarmed: "ack_flag s \<noteq> 1 \<Longrightarrow> ack_flag (assert_cond env f s) \<noteq> 1"
  by (simp add: assert_cond_simps ack_flag_tick)

lemma i2c_send_rendezvous:
  assumes "ack_flag s \<noteq> 1" and "i2c_send env dt s = Some (r, s')"
  shows "bridge (trace s') = bridge (trace s) @ [Arm, Handler_cleared, Released]"
proof -
  from assms(2) obtain s1 s2 where 1: "i2c_check_idle env 0x5 s = Some s1"
    and 2: "wait_ack env (load_SSPBUF env dt (arm env s1)) = Some s2"
    and 3: "return_ACKSTAT env s2 = (r, s')" by (rule i2c_send_steps)
  from i2c_check_idle_unarmed [OF 1 assms(1)] have u: "ack_flag s1 \<noteq> 1" .
  from handshake_rendezvous [OF u 2 3] i2c_check_idle_rendezvous [OF 1]
    rendezvous_unarmed [OF assms(1)]
  show ?thesis by simp
qed

lemma start_like_rendezvous:
  assumes "ack_flag s \<noteq> 1"
    and 1: "i2c_check_idle env 0x5 s = Some s1"
    and 2: "i2c_check_idle env 0x5 (assert_cond env c s1) = Some s2"
    and 3: "wait_ack env (load_SSPBUF env v (arm env s2)) = Some s3"
    and 4: "return_ACKSTAT env s3 = (r, s')"
  shows "bridge (trace s') = bridge (trace s) @ [Arm, Handler_cleared, Released]"
proof -
  from i2c_check_idle_unarmed [OF 1 assms(1)] have u1: "ack_flag s1 \<noteq> 1" .
  then have "ack_flag (assert_cond env c s1) \<noteq> 1"
    by (rule assert_cond_unarmed)
  from i2c_check_idle_unarmed [OF 2 this] have u2: "ack_flag s2 \<noteq> 1" .
  have "rendezvous (assert_cond env c s1) = rendezvous s1"
    by (rule rendezvous_assert_cond)
  with i2c_check_idle_rendezvous [OF 1] i2c_check_idle_rendezvous [OF 2]
  have "rendezvous s2 = rendezvous s" by simp
  with handshake_rendezvous [OF u2 3 4] rendezvous_unarmed [OF assms(1)]
  show ?thesis by simp
qed

lemma i2c_start_rendezvous:
  assumes "ack_flag s \<noteq> 1" and "i2c_start env adrs rw s = Some (r, s')"
  shows "bridge (trace s') = bridge (trace s) @ [Arm, Handler_cleared, Released]"
  using assms(2) by (elim i2c_start_steps) (rule start_like_rendezvous [OF assms(1)])

lemma i2c_rstart_rendezvous:
  assumes "ack_flag s \<noteq> 1" and "i2c_rstart env adrs rw s = Some (r, s')"
  shows "bridge (trace s') = bridge (trace s) @ [Arm, Handler_cleared, Released]"
  using assms(2) by (elim i2c_rstart_steps) (rule start_like_rendezvous [OF assms(1)])

lemma wait_ack_signalled:
  "ack_flag s = 1 \<Longrightarrow> signalled env s \<Longrightarrow>
   wait_ack env s = Some (logged Released (tick env s))"
  by (rule wait_ack_now) (simp add: ack_flag_tick)

lemma wait_ack_not_signalled:
  "ack_flag s = 1 \<Longrightarrow> \<not> signalled env s \<Longrightarrow>
   wait_ack env s = wait_ack env (tick env s) \<and> ack_flag (tick env s) = 1"
  by (subst wait_ack.simps) (simp add: ack_flag_tick Let_def)

section \<open>The flag is the handler's and the three arming operations'\<close>

lemma handler_only_refl: "handler_only s s"
  by (simp add: handler_only_def)

lemma handler_only_trans [trans]: "handler_only s t \<Longrightarrow> handler_only t u \<Longrightarrow> handler_only s u"
  by (auto simp add: handler_only_def)

lemma handler_only_tick: "handler_only s (tick env s)"
  by (simp add: handler_only_def ack_flag_tick)

lemma handler_only_poke: "handler_only s (poke env f obs s)"
  by (simp add: handler_only_def poke_simps ack_flag_tick)





lemma handler_only_poke_after: "handler_only s t \<Longrightarrow> handler_only s (poke env f obs t)"
  by (rule handler_only_trans [OF _ handler_only_poke])

lemma handler_only_init: "handler_only s (i2c_init_master env s)"
  unfolding i2c_init_master_def Let_def
  by (rule handler_only_poke_after)+ (rule handler_only_refl)

section \<open>What does not depend on the flag\<close>













section \<open>The mirror image\<close>

lemma bit_exchange:
  "bit (exchange x) n = (if n = 0 then bit x 1 else if n = 1 then bit x 0 else bit x n)"
  by (auto simp add: exchange_def bit_set_bit_iff bit_unset_bit_iff dest: bit_imp_le_length)

lemma exchange_exchange: "exchange (exchange x) = x"
  by (rule bit_eqI) (simp add: bit_exchange)

lemma exchange_set_bit_SEN:
  "set_bit (field_bit RSEN) (exchange x) = exchange (set_bit (field_bit SEN) x)"
  by (rule bit_eqI) (auto simp add: bit_exchange bit_set_bit_iff)

lemma exchange_low5: "exchange x AND 0x1F = 0 \<longleftrightarrow> x AND 0x1F = 0"
proof -
  have "(\<forall>n<5. \<not> bit (exchange x) n) \<longleftrightarrow> (\<forall>n<5. \<not> bit x n)" (is "?L \<longleftrightarrow> ?R")
  proof
    assume l: ?L
    show ?R
    proof (intro allI impI)
      fix n :: nat assume n: "n < 5"
      from l have "\<not> bit (exchange x) 0" "\<not> bit (exchange x) 1" by simp_all
      then have "\<not> bit x 1" "\<not> bit x 0" by (simp_all add: bit_exchange)
      moreover from l n have "\<not> bit (exchange x) n" by simp
      ultimately show "\<not> bit x n" by (cases "n = 0"; cases "n = 1") (simp_all add: bit_exchange)
    qed
  next
    assume r: ?R
    show ?L
    proof (intro allI impI)
      fix n :: nat assume n: "n < 5"
      from r have "\<not> bit x 0" "\<not> bit x 1" by simp_all
      with r n show "\<not> bit (exchange x) n" by (simp add: bit_exchange)
    qed
  qed
  then show ?thesis by (simp only: low5_zero_iff)
qed

lemma busy_exchange: "busy m (exchange c) st = busy m c st"
  by (simp add: busy_def or_eq_0_iff exchange_low5)

lemma mirror_regs_mirror_regs: "mirror_regs (mirror_regs r) = r"
  by (simp add: mirror_regs_def exchange_exchange)

lemma mirror_action_mirror_action: "mirror_action (mirror_action a) = a"
  by (cases a rule: mirror_action.cases) simp_all

lemma mirror_mirror: "mirror (mirror s) = s"
  by (simp add: mirror_def mirror_regs_mirror_regs comp_def mirror_action_mirror_action)

lemma mirror_env_mirror_env: "mirror_env (mirror_env env) = env"
  by (rule ext) (simp add: mirror_env_def mirror_regs_mirror_regs)

lemma mirror_simps:
  "hw (mirror s) = mirror_regs (hw s)" "ack_flag (mirror s) = ack_flag s"
  "clock (mirror s) = clock s" "trace (mirror s) = map mirror_action (trace s)"
  by (simp_all add: mirror_def)

lemma mirror_i2c_interrupt: "i2c_interrupt (mirror s) = mirror (i2c_interrupt s)"
  by (simp add: i2c_interrupt_def mirror_def mirror_regs_def Let_def)

lemma mirror_logged: "logged (mirror_action a) (mirror s) = mirror (logged a s)"
  by (simp add: logged_def mirror_def)

lemma mirror_tick: "tick (mirror_env env) (mirror s) = mirror (tick env s)"
proof -
  have a: "(mirror s)\<lparr>hw := mirror_regs (hardware (env (clock s)) (hw s))\<rparr> =
        mirror (s\<lparr>hw := hardware (env (clock s)) (hw s)\<rparr>)"
    by (simp add: mirror_def)
  have b: "logged Handler_cleared (mirror x) = mirror (logged Handler_cleared x)" for x
    using mirror_logged [of Handler_cleared x] by simp
  have c: "(mirror x)\<lparr>clock := k\<rparr> = mirror (x\<lparr>clock := k\<rparr>)" for x k
    by (simp add: mirror_def)
  show ?thesis
    by (simp add: tick_def Let_def mirror_env_def mirror_simps mirror_regs_mirror_regs a
        mirror_i2c_interrupt b c)
qed

lemma mirror_ticks: "ticks (mirror_env env) n (mirror s) = mirror (ticks env n s)"
  by (induction n arbitrary: s) (simp_all add: mirror_tick)


lemma mirror_i2c_check_idle:
  "i2c_check_idle (mirror_env env) m (mirror s) = map_option mirror (i2c_check_idle env m s)"
proof -
  have h: "busy m (con2_read (mirror_env env) (mirror s) n) (stat_read (mirror_env env) (mirror s) n)
      = busy m (con2_read env s n) (stat_read env s n)" for n
    by (simp only: con2_read_def stat_read_def mirror_ticks mirror_simps)
       (simp add: mirror_regs_def busy_exchange)
  have l: "logged (Idle_wait m) (mirror x) = mirror (logged (Idle_wait m) x)" for x
    using mirror_logged [of "Idle_wait m" x] by simp
  show ?thesis
  proof (cases "i2c_check_idle env m s")
    case None
    then have "i2c_check_idle (mirror_env env) m (mirror s) = None"
      unfolding i2c_check_idle_None h .
    with None show ?thesis by simp
  next
    case (Some s')
    then obtain n where n: "\<not> busy m (con2_read env s n) (stat_read env s n)"
      "\<forall>j<n. busy m (con2_read env s j) (stat_read env s j)"
      "s' = logged (Idle_wait m) (ticks env (2 * n + 2) s)"
      by (blast dest: i2c_check_idle_Some)
    from n(1,2) have "i2c_check_idle (mirror_env env) m (mirror s) =
        Some (logged (Idle_wait m) (ticks (mirror_env env) (2 * n + 2) (mirror s)))"
      unfolding h [symmetric] by (rule i2c_check_idle_first)
    with Some n(3) show ?thesis by (simp only: mirror_ticks l option.map)
  qed
qed

lemma mirror_wait_ack:
  "wait_ack (mirror_env env) (mirror s) = map_option mirror (wait_ack env s)"
proof -
  have h: "ack_flag (ticks (mirror_env env) n (mirror s)) = ack_flag (ticks env n s)" for n
    by (simp only: mirror_ticks mirror_simps)
  have l: "logged Released (mirror x) = mirror (logged Released x)" for x
    using mirror_logged [of Released x] by simp
  show ?thesis
  proof (cases "wait_ack env s")
    case None
    then have "wait_ack (mirror_env env) (mirror s) = None"
      unfolding wait_ack_None h .
    with None show ?thesis by simp
  next
    case (Some s')
    then obtain n where n: "ack_flag (ticks env (Suc n) s) = 0"
      "\<forall>j<n. ack_flag (ticks env (Suc j) s) \<noteq> 0"
      "s' = logged Released (ticks env (Suc n) s)"
      by (blast dest: wait_ack_Some)
    from n(1,2) have "wait_ack (mirror_env env) (mirror s) =
        Some (logged Released (ticks (mirror_env env) (Suc n) (mirror s)))"
      unfolding h [symmetric] by (rule wait_ack_first)
    with Some n(3) show ?thesis by (simp only: mirror_ticks l option.map)
  qed
qed

lemma mirror_poke:
  assumes "\<And>r. f' (mirror_regs r) = mirror_regs (f r)"
    and "\<And>r. obs' (mirror_regs r) = mirror_action (obs r)"
  shows "poke (mirror_env env) f' obs' (mirror s) = mirror (poke env f obs s)"
proof -
  have "(mirror x)\<lparr>hw := f' (hw (mirror x))\<rparr> = mirror (x\<lparr>hw := f (hw x)\<rparr>)" for x
    by (simp add: mirror_def assms(1))
  moreover have "obs' (f' (hw (mirror x))) = mirror_action (obs (f (hw x)))" for x
    by (simp add: mirror_simps assms)
  ultimately show ?thesis
    by (simp add: poke_def Let_def mirror_tick mirror_logged)
qed

lemma mirror_assert_SEN:
  "assert_cond (mirror_env env) RSEN (mirror s) = mirror (assert_cond env SEN s)"
  unfolding assert_cond_def
proof (rule mirror_poke)
  show "mirror_regs r\<lparr>SSPCON2 := set_bit (field_bit RSEN) (SSPCON2 (mirror_regs r))\<rparr> =
      mirror_regs (r\<lparr>SSPCON2 := set_bit (field_bit SEN) (SSPCON2 r)\<rparr>)" for r
    by (simp add: mirror_regs_def exchange_set_bit_SEN del: field_bit.simps)
  show "Field RSEN (bit (SSPCON2 (mirror_regs r)) (field_bit RSEN)) =
      mirror_action (Field SEN (bit (SSPCON2 r) (field_bit SEN)))" for r
    by (simp add: mirror_regs_def bit_exchange)
qed

lemma mirror_load_SSPBUF:
  "load_SSPBUF (mirror_env env) v (mirror s) = mirror (load_SSPBUF env v s)"
  unfolding load_SSPBUF_def
  by (rule mirror_poke) (simp_all add: mirror_regs_def)

lemma mirror_arm: "arm (mirror_env env) (mirror s) = mirror (arm env s)"
proof -
  have a: "(mirror x)\<lparr>ack_flag := 1\<rparr> = mirror (x\<lparr>ack_flag := 1\<rparr>)" for x
    by (simp add: mirror_def)
  have b: "logged Arm (mirror x) = mirror (logged Arm x)" for x
    using mirror_logged [of Arm x] by simp
  have "arm (mirror_env env) (mirror s) = logged Arm ((mirror (tick env s))\<lparr>ack_flag := 1\<rparr>)"
    by (simp add: arm_def Let_def mirror_tick)
  also have "\<dots> = mirror (logged Arm ((tick env s)\<lparr>ack_flag := 1\<rparr>))"
    by (simp only: a b)
  also have "\<dots> = mirror (arm env s)"
    by (simp add: arm_def Let_def)
  finally show ?thesis .
qed

lemma mirror_return_ACKSTAT:
  "return_ACKSTAT (mirror_env env) (mirror s) = map_prod id mirror (return_ACKSTAT env s)"
proof -
  have "logged (Ack_status b) (mirror x) = mirror (logged (Ack_status b) x)" for x b
    using mirror_logged [of "Ack_status b" x] by simp
  then show ?thesis
    by (simp add: return_ACKSTAT_def Let_def mirror_tick mirror_simps mirror_regs_def
        bit_exchange)
qed

lemma mirror_i2c_start:
  "i2c_rstart (mirror_env env) adrs rw (mirror s) =
     map_option (map_prod id mirror) (i2c_start env adrs rw s)"
proof (cases "i2c_check_idle env 0x5 s")
  case None
  then show ?thesis by (simp add: i2c_rstart_def i2c_start_def mirror_i2c_check_idle)
next
  case s1: (Some s1)
  show ?thesis
  proof (cases "i2c_check_idle env 0x5 (assert_cond env SEN s1)")
    case None
    with s1 show ?thesis
      by (simp add: i2c_rstart_def i2c_start_def mirror_i2c_check_idle mirror_assert_SEN)
  next
    case s2: (Some s2)
    show ?thesis
    proof (cases "wait_ack env (load_SSPBUF env (address_byte adrs rw) (arm env s2))")
      case None
      with s1 s2 show ?thesis
        by (simp add: i2c_rstart_def i2c_start_def mirror_i2c_check_idle mirror_assert_SEN
            mirror_arm mirror_load_SSPBUF mirror_wait_ack)
    next
      case (Some s3)
      with s1 s2 show ?thesis
        by (simp add: i2c_rstart_def i2c_start_def mirror_i2c_check_idle mirror_assert_SEN
            mirror_arm mirror_load_SSPBUF mirror_wait_ack mirror_return_ACKSTAT)
    qed
  qed
qed


lemma mirror_action_handler: "mirror_action a = Handler_cleared \<longleftrightarrow> a = Handler_cleared"
  by (cases a rule: mirror_action.cases) simp_all

lemma program_mirror: "program (trace (mirror s)) = map mirror_action (program (trace s))"
  by (simp add: mirror_simps program_def filter_map comp_def mirror_action_handler)

section \<open>What the environment decides\<close>

lemma tick_registers:
  "SSPCON2 (hw (tick env s)) = SSPCON2 (hardware (env (clock s)) (hw s))"
  "SSPSTAT (hw (tick env s)) = SSPSTAT (hardware (env (clock s)) (hw s))"
  "SSPBUF (hw (tick env s)) = SSPBUF (hardware (env (clock s)) (hw s))"
  by (simp_all add: hw_tick)




lemma armed_and_loaded:
  "ack_flag (load_SSPBUF env v (arm env s)) = 0 \<or> ack_flag (load_SSPBUF env v (arm env s)) = 1"
  by (simp add: load_SSPBUF_simps arm_simps ack_flag_tick)


lemma never_signals_ticks: "never_signals env \<Longrightarrow> ack_flag (ticks env n s) = ack_flag s"
proof (induction n)
  case 0
  then show ?case by simp
next
  case (Suc n)
  from Suc.prems have "\<not> signalled env (ticks env n s)"
    by (simp add: never_signals_def signalled_def)
  with Suc show ?case by (simp only: ticks_Suc_right ack_flag_tick) simp
qed



lemma keeps_SSPBUF_ticks:
  assumes "keeps_SSPBUF env"
  shows "SSPBUF (hw (ticks env n s)) = SSPBUF (hw s)"
proof (induction n)
  case 0
  show ?case by simp
next
  case (Suc n)
  have "SSPBUF (hw (tick env (ticks env n s))) = SSPBUF (hw (ticks env n s))"
    using assms by (simp add: tick_registers keeps_SSPBUF_def del: ticks.simps)
  with Suc show ?case by (simp only: ticks_Suc_right)
qed

lemma handshake_SSPBUF:
  assumes "keeps_SSPBUF env"
    and "wait_ack env (load_SSPBUF env v x) = Some s2"
    and "return_ACKSTAT env s2 = (r, s')"
  shows "SSPBUF (hw s') = v"
proof -
  from assms(2) obtain n where "s2 = logged Released (ticks env (Suc n) (load_SSPBUF env v x))"
    by (blast dest: wait_ack_Some)
  then have "SSPBUF (hw s2) = v"
    by (simp add: logged_simps keeps_SSPBUF_ticks [OF assms(1)] load_SSPBUF_simps
        del: ticks.simps)
  moreover from assms(3) have "hw s' = hw (tick env s2)"
    by (auto simp add: return_ACKSTAT_def Let_def logged_def)
  ultimately show ?thesis
    using keeps_SSPBUF_ticks [OF assms(1), of 1 s2] by simp
qed






section \<open>Runs on the test bench\<close>

lemma program_reset: "program (trace reset_state) = []"
  by (simp add: reset_state_def program_def)


lemma prompt_check_idle:
  assumes "\<And>n r. SSPCON2 (hardware (env n) r) = answer nack (SSPCON2 r)"
    and "\<And>n r. SSPSTAT (hardware (env n) r) = 0"
  shows "i2c_check_idle env m s = Some (logged (Idle_wait m) (tick env (tick env s)))"
  by (rule i2c_check_idle_now)
     (simp add: tick_registers assms quiescent_iff_not_busy [symmetric] answer_quiescent)

lemma prompt_ACKSTAT:
  assumes "\<And>n r. SSPCON2 (hardware (env n) r) = answer nack (SSPCON2 r)"
  shows "fst (return_ACKSTAT env s) = (if nack then 1 else 0)"
  by (simp add: return_ACKSTAT_simps tick_registers assms bit_answer)

lemma prompt_settles:
  assumes "\<And>n r. SSPCON2 (hardware (env n) r) = answer nack (SSPCON2 r)"
    and "\<And>n r. SSPSTAT (hardware (env n) r) = 0"
  shows "settles env"
  unfolding settles_def idle_def by (simp add: assms answer_quiescent)

lemma prompt_keeps_ACKDT:
  assumes "\<And>n r. SSPCON2 (hardware (env n) r) = answer nack (SSPCON2 r)"
  shows "keeps_ACKDT env"
  unfolding keeps_ACKDT_def by (simp add: assms bit_answer)

lemma signalled_peer: "signalled (peer nack) s"
  by (simp add: signalled_def peer_def)

lemma peer_kind:
  "settles (peer nack)" "signals (peer nack)" "keeps_SSPBUF (peer nack)"
  "keeps_ACKDT (peer nack)"
proof -
  show "settles (peer nack)" by (rule prompt_settles [where nack = nack]) (simp_all add: peer_def)
  show "keeps_ACKDT (peer nack)"
    by (rule prompt_keeps_ACKDT [where nack = nack]) (simp add: peer_def)
  show "signals (peer nack)" unfolding signals_def by (auto simp add: peer_def)
  show "keeps_SSPBUF (peer nack)" by (simp add: keeps_SSPBUF_def peer_def)
qed

lemma peer_check_idle:
  "i2c_check_idle (peer nack) m s =
     Some (logged (Idle_wait m) (tick (peer nack) (tick (peer nack) s)))"
  by (rule prompt_check_idle [where nack = nack]) (simp_all add: peer_def)

lemma peer_wait_ack:
  "ack_flag s = 0 \<or> ack_flag s = 1 \<Longrightarrow>
   wait_ack (peer nack) s = Some (logged Released (tick (peer nack) s))"
  by (rule wait_ack_now) (auto simp add: ack_flag_tick signalled_peer)

lemma peer_handshake:
  "wait_ack (peer nack) (load_SSPBUF (peer nack) v (arm (peer nack) s)) =
     Some (logged Released (tick (peer nack) (load_SSPBUF (peer nack) v (arm (peer nack) s))))"
  by (rule peer_wait_ack) (rule armed_and_loaded)

lemma peer_ACKSTAT: "fst (return_ACKSTAT (peer nack) s) = (if nack then 1 else 0)"
  by (rule prompt_ACKSTAT) (simp add: peer_def)

lemma peer_i2c_send:
  "\<exists>s'. i2c_send (peer nack) dt s = Some (if nack then 1 else 0, s')"
  using peer_ACKSTAT [of nack]
  by (simp add: i2c_send_def peer_check_idle peer_handshake prod_eq_iff)

lemma peer_i2c_start:
  "\<exists>s'. i2c_start (peer nack) adrs rw s = Some (if nack then 1 else 0, s')"
  using peer_ACKSTAT [of nack]
  by (simp add: i2c_start_def peer_check_idle peer_handshake prod_eq_iff)

lemma peer_i2c_rstart:
  "\<exists>s'. i2c_rstart (peer nack) adrs rw s = Some (if nack then 1 else 0, s')"
  using peer_ACKSTAT [of nack]
  by (simp add: i2c_rstart_def peer_check_idle peer_handshake prod_eq_iff)








lemma tardy_kind:
  "settles (tardy k nack)" "signals (tardy k nack)" "keeps_SSPBUF (tardy k nack)"
  "keeps_ACKDT (tardy k nack)"
proof -
  show "settles (tardy k nack)"
    by (rule prompt_settles [where nack = nack]) (simp_all add: tardy_def)
  show "keeps_ACKDT (tardy k nack)"
    by (rule prompt_keeps_ACKDT [where nack = nack]) (simp add: tardy_def)
  show "signals (tardy k nack)"
    unfolding signals_def
  proof
    fix n
    have "n \<le> max n k \<and> (\<forall>r. dispatch (tardy k nack (max n k)) \<and>
        SSPIF (hardware (tardy k nack (max n k)) r))"
      by (simp add: tardy_def)
    then show "\<exists>j\<ge>n. \<forall>r. dispatch (tardy k nack j) \<and> SSPIF (hardware (tardy k nack j) r)"
      by blast
  qed
  show "keeps_SSPBUF (tardy k nack)" by (simp add: keeps_SSPBUF_def tardy_def)
qed






lemma hw_ticks_silent: "hw (ticks silent n s) = hw s"
  by (induction n arbitrary: s) (simp_all add: hw_tick silent_def)

lemma silent_kind: "never_signals silent" "keeps_SSPBUF silent" "keeps_ACKDT silent"
  by (simp_all add: never_signals_def keeps_SSPBUF_def keeps_ACKDT_def silent_def)


lemma hw_ticks_sluggish:
  "hw (ticks sluggish n reset_state) =
     reset_regs\<lparr>SSPSTAT := (if n = 0 \<or> 3 < n then 0 else 0x4)\<rparr>"
proof (induction n)
  case 0
  then show ?case by (simp add: reset_state_def reset_regs_def)
next
  case (Suc n)
  have "hw (ticks sluggish (Suc n) reset_state) =
      (hw (ticks sluggish n reset_state))\<lparr>SSPSTAT := (if n < 3 then 0x4 else 0)\<rparr>"
    by (simp only: ticks_Suc_right hw_tick clock_ticks)
       (simp add: sluggish_def reset_state_def)
  with Suc show ?case by (auto simp add: reset_regs_def)
qed

lemma hw_ticks_flicker:
  "hw (ticks flicker (Suc n) stuck_state) =
     reset_regs\<lparr>SSPCON2 := (if even n then 0 else 0x1),
                SSPSTAT := (if even n then 0x1 else 0)\<rparr>"
proof (induction n)
  case 0
  show ?case
    by (simp add: hw_tick flicker_def stuck_state_def reset_state_def reset_regs_def)
next
  case (Suc n)
  have "hw (ticks flicker (Suc (Suc n)) stuck_state) =
      hardware (flicker (Suc n)) (hw (ticks flicker (Suc n) stuck_state))"
    by (simp only: ticks_Suc_right [of flicker "Suc n"] hw_tick clock_ticks)
       (simp add: flicker_def stuck_state_def reset_state_def)
  with Suc show ?case by (simp add: flicker_def reset_regs_def)
qed

section \<open>A handler call while the flag is clear\<close>

lemma spurious_call:
  assumes "ack_flag s = 0"
  shows "i2c_interrupt s = s\<lparr>hw := (hw s)\<lparr>SSPIF := False, BCLIF := False\<rparr>\<rparr>"
  using assms by (simp add: i2c_interrupt_def Let_def)

lemma idle_call: "\<not> SSPIF (hw s) \<Longrightarrow> \<not> BCLIF (hw s) \<Longrightarrow> i2c_interrupt s = s"
  by (simp add: i2c_interrupt_def Let_def)

lemma oblivious_tick:
  assumes "oblivious env" and "dispatch (env (clock s))" and "ack_flag s = 0"
  shows "tick env (i2c_interrupt s) = tick env s"
proof -
  have "(hardware (env (clock s)) ((hw s)\<lparr>SSPIF := False, BCLIF := False\<rparr>))
      \<lparr>SSPIF := False, BCLIF := False\<rparr> =
    (hardware (env (clock s)) (hw s))\<lparr>SSPIF := False, BCLIF := False\<rparr>"
    using assms(1) unfolding oblivious_def by blast
  then show ?thesis
    using assms(2,3)
    by (simp add: spurious_call tick_def Let_def)
qed

lemma oblivious_check_idle:
  assumes "oblivious env" and "dispatch (env (clock s))" and "ack_flag s = 0"
  shows "i2c_check_idle env m (i2c_interrupt s) = i2c_check_idle env m s"
  by (subst i2c_check_idle.simps [of env m "i2c_interrupt s"],
      subst i2c_check_idle.simps [of env m s])
     (simp only: oblivious_tick [OF assms])

lemma oblivious_operations:
  assumes "oblivious env" and "dispatch (env (clock s))" and "ack_flag s = 0"
  shows "i2c_start env adrs rw (i2c_interrupt s) = i2c_start env adrs rw s"
    and "i2c_rstart env adrs rw (i2c_interrupt s) = i2c_rstart env adrs rw s"
    and "i2c_send env dt (i2c_interrupt s) = i2c_send env dt s"
    and "i2c_stop env (i2c_interrupt s) = i2c_stop env s"
    and "i2c_receive env ack (i2c_interrupt s) = i2c_receive env ack s"
  unfolding i2c_start_def i2c_rstart_def i2c_send_def i2c_stop_def i2c_receive_def
  by (simp_all only: oblivious_check_idle [OF assms])

lemma oblivious_bench: "oblivious (peer nack)" "oblivious late" "oblivious silent"
  by (simp_all add: oblivious_def peer_def late_def silent_def)

text \<open>
  When the hardware never raises the completion signal and none is pending, no handshake
  ends.
\<close>

lemma unsignalled_hang:
  assumes hwk: "\<And>n r. SSPIF (hardware (env n) r) = SSPIF r" and s: "\<not> SSPIF (hw s)"
  shows "i2c_start env adrs rw s = None" and "i2c_rstart env adrs rw s = None"
    and "i2c_send env dt s = None"
proof -
  have t: "\<not> SSPIF (hw (tick env x))" if "\<not> SSPIF (hw x)" for x
    using that by (simp add: hw_tick hwk)
  have ts: "\<not> SSPIF (hw (ticks env n x))" if "\<not> SSPIF (hw x)" for x n
    using that by (induction n arbitrary: x) (simp_all add: t)
  have ns: "\<not> signalled env x" if "\<not> SSPIF (hw x)" for x
    using that by (simp add: signalled_def hwk)
  have fl: "ack_flag (ticks env n x) = ack_flag x" if "\<not> SSPIF (hw x)" for x n
    using that
  proof (induction n arbitrary: x)
    case 0
    show ?case by simp
  next
    case (Suc n)
    from Suc.prems have "ack_flag (tick env x) = ack_flag x" "\<not> SSPIF (hw (tick env x))"
      by (simp_all add: ack_flag_tick ns t)
    with Suc.IH [of "tick env x"] show ?case by simp
  qed
  have hs: "wait_ack env (load_SSPBUF env v (arm env x)) = None" if "\<not> SSPIF (hw x)" for x v
  proof -
    from that have a: "\<not> SSPIF (hw (arm env x))" by (simp add: arm_simps t)
    then have "\<not> SSPIF (hw (load_SSPBUF env v (arm env x)))"
      by (simp add: load_SSPBUF_simps t)
    moreover from a have "ack_flag (load_SSPBUF env v (arm env x)) = 1"
      by (simp add: load_SSPBUF_simps ack_flag_tick ns arm_simps)
    ultimately show ?thesis
      by (simp add: wait_ack_None fl del: ticks.simps)
  qed
  have ci: "\<not> SSPIF (hw y)" if "\<not> SSPIF (hw x)" "i2c_check_idle env m x = Some y" for x y m
  proof -
    from that(2) obtain n where "y = logged (Idle_wait m) (ticks env (2 * n + 2) x)"
      by (blast dest: i2c_check_idle_Some)
    with ts [OF that(1)] show ?thesis by (simp add: logged_simps del: ticks.simps)
  qed
  have ac: "\<not> SSPIF (hw (assert_cond env f x))" if "\<not> SSPIF (hw x)" for x f
    using that by (simp add: assert_cond_simps t)
  show "i2c_send env dt s = None"
  proof (cases "i2c_check_idle env 0x5 s")
    case None
    then show ?thesis by (simp add: i2c_send_def)
  next
    case (Some s1)
    with hs [OF ci [OF s Some]] show ?thesis by (simp add: i2c_send_def)
  qed
  show "i2c_start env adrs rw s = None"
  proof (cases "i2c_check_idle env 0x5 s")
    case None
    then show ?thesis by (simp add: i2c_start_def)
  next
    case (Some s1)
    note 1 = ac [OF ci [OF s Some], of SEN]
    show ?thesis
    proof (cases "i2c_check_idle env 0x5 (assert_cond env SEN s1)")
      case None
      with Some show ?thesis by (simp add: i2c_start_def)
    next
      case s2: (Some s2)
      with Some hs [OF ci [OF 1 s2]] show ?thesis by (simp add: i2c_start_def)
    qed
  qed
  show "i2c_rstart env adrs rw s = None"
  proof (cases "i2c_check_idle env 0x5 s")
    case None
    then show ?thesis by (simp add: i2c_rstart_def)
  next
    case (Some s1)
    note 1 = ac [OF ci [OF s Some], of RSEN]
    show ?thesis
    proof (cases "i2c_check_idle env 0x5 (assert_cond env RSEN s1)")
      case None
      with Some show ?thesis by (simp add: i2c_rstart_def)
    next
      case s2: (Some s2)
      with Some hs [OF ci [OF 1 s2]] show ?thesis by (simp add: i2c_rstart_def)
    qed
  qed
qed

lemma late_after_spurious_call:
  "i2c_interrupt pending_state = reset_state" "i2c_send late 0x10 reset_state = None"
proof -
  show "i2c_interrupt pending_state = reset_state"
    by (simp add: i2c_interrupt_def pending_state_def reset_state_def reset_regs_def)
  show "i2c_send late 0x10 reset_state = None"
    by (rule unsignalled_hang) (simp_all add: late_def reset_state_def reset_regs_def)
qed

lemma late_send_pending:
  "\<exists>s'. i2c_send late 0x10 pending_state = Some (0, s') \<and> clock s' = 6"
proof -
  define s1 where "s1 = logged (Idle_wait 0x5) (tick late (tick late pending_state))"
  define x where "x = load_SSPBUF late 0x10 (arm late s1)"
  have h1: "hw (tick late (tick late pending_state)) = reset_regs\<lparr>SSPIF := True\<rparr>"
    "clock (tick late (tick late pending_state)) = 2"
    by (simp_all add: hw_tick clock_tick late_def pending_state_def reset_state_def)
  have "\<not> busy 0x5 (SSPCON2 (hw (tick late pending_state)))
      (SSPSTAT (hw (tick late (tick late pending_state))))"
    by (simp add: tick_registers clock_tick late_def pending_state_def reset_state_def
        reset_regs_def busy_def)
  then have 1: "i2c_check_idle late 0x5 pending_state = Some s1"
    unfolding s1_def by (rule i2c_check_idle_now)
  have a: "clock (arm late s1) = 3" "SSPIF (hw (arm late s1))"
    by (simp_all add: arm_simps s1_def logged_simps clock_tick h1 hw_tick late_def
        pending_state_def reset_state_def reset_regs_def)
  then have "signalled late (arm late s1)" by (simp add: signalled_def late_def)
  then have f: "ack_flag x = 0"
    by (simp add: x_def load_SSPBUF_simps ack_flag_tick arm_simps)
  then have "ack_flag (tick late x) = 0" by (simp add: ack_flag_tick)
  then have 2: "wait_ack late x = Some (logged Released (tick late x))"
    by (rule wait_ack_now)
  have c: "clock x = 4" by (simp add: x_def load_SSPBUF_simps a)
  have "SSPCON2 (hw (tick late (logged Released (tick late x)))) = 0"
    by (simp add: tick_registers logged_simps late_def x_def load_SSPBUF_simps arm_simps
        s1_def h1 reset_regs_def pending_state_def reset_state_def)
  then have 3: "fst (return_ACKSTAT late (logged Released (tick late x))) = 0"
    by (simp add: return_ACKSTAT_simps)
  have 4: "clock (snd (return_ACKSTAT late (logged Released (tick late x)))) = 6"
    by (simp add: return_ACKSTAT_simps logged_simps clock_tick c)
  from 1 2 3 4 show ?thesis
    by (simp add: i2c_send_def x_def [symmetric] prod_eq_iff)
qed

section \<open>The claims\<close>

text \<open>
  C1. The byte that \<^verbatim>\<open>i2c_start\<close> and \<^verbatim>\<open>i2c_rstart\<close> load into \<^verbatim>\<open>SSPBUF\<close>
  after asserting the start (repeated start) condition is \<open>((a << 1) + d) mod 256\<close> for
  every 8-bit address \<open>a\<close> and every \<open>d\<close>. Whenever one of them returns, the one load
  of \<^verbatim>\<open>SSPBUF\<close> in its action sequence follows the condition and the idle wait after it,
  and \<^verbatim>\<open>SSPBUF\<close> reads that byte right after the load; it still holds that byte at
  return when the hardware does not overwrite the buffer. The byte is \<open>0xA0\<close> for
  address \<open>0x50\<close> and direction 0, \<open>0xA1\<close> for direction 1. No range check is made: an
  address with bit 7 set is shifted like any other, and that bit falls out of the eight
  bits kept (\<open>0xD0\<close> frames as \<open>0x50\<close> does).
\<close>

theorem address_framing:
  "(i2c_start env adrs rw s = Some (r, s') \<longrightarrow>
      program (trace s') = program (trace s) @
        [Idle_wait 0x5, Assert SEN, Idle_wait 0x5, Arm, Transmit (address_byte adrs rw),
         Released, Ack_status (r = 1)] \<and>
      (keeps_SSPBUF env \<longrightarrow> SSPBUF (hw s') = address_byte adrs rw)) \<and>
   (i2c_rstart env adrs rw s = Some (r, s') \<longrightarrow>
      program (trace s') = program (trace s) @
        [Idle_wait 0x5, Assert RSEN, Idle_wait 0x5, Arm, Transmit (address_byte adrs rw),
         Released, Ack_status (r = 1)] \<and>
      (keeps_SSPBUF env \<longrightarrow> SSPBUF (hw s') = address_byte adrs rw)) \<and>
   SSPBUF (hw (load_SSPBUF env (address_byte adrs rw) s)) = address_byte adrs rw \<and>
   unat (address_byte adrs rw) = (unat adrs * 2 + unat rw) mod 256 \<and>
   address_byte 0x50 0 = 0xA0 \<and> address_byte 0x50 1 = 0xA1 \<and>
   address_byte 0xD0 0 = 0xA0"
proof (intro conjI impI)
  show "unat (address_byte adrs rw) = (unat adrs * 2 + unat rw) mod 256"
    by (rule address_byte_unat)
  show "SSPBUF (hw (load_SSPBUF env (address_byte adrs rw) s)) = address_byte adrs rw"
    by (simp add: load_SSPBUF_simps)
  show "SSPBUF (hw s') = address_byte adrs rw"
    if "i2c_start env adrs rw s = Some (r, s')" "keeps_SSPBUF env"
    using that(1) by (elim i2c_start_steps) (rule handshake_SSPBUF [OF that(2)])
  show "SSPBUF (hw s') = address_byte adrs rw"
    if "i2c_rstart env adrs rw s = Some (r, s')" "keeps_SSPBUF env"
    using that(1) by (elim i2c_rstart_steps) (rule handshake_SSPBUF [OF that(2)])
qed (simp_all add: i2c_start_program i2c_rstart_program, simp_all add: address_byte_def)

theorem address_framing_witness:
  "map_option (program \<circ> trace \<circ> snd) (i2c_start (peer False) 0x50 0 reset_state) =
     Some [Idle_wait 0x5, Assert SEN, Idle_wait 0x5, Arm, Transmit 0xA0, Released,
           Ack_status False] \<and>
   map_option (SSPBUF \<circ> hw \<circ> snd) (i2c_start (peer False) 0x50 0 reset_state) = Some 0xA0 \<and>
   map_option (program \<circ> trace \<circ> snd) (i2c_rstart (peer False) 0x50 1 reset_state) =
     Some [Idle_wait 0x5, Assert RSEN, Idle_wait 0x5, Arm, Transmit 0xA1, Released,
           Ack_status False] \<and>
   map_option (SSPBUF \<circ> hw \<circ> snd) (i2c_rstart (peer False) 0x50 1 reset_state) = Some 0xA1"
proof -
  obtain s1 where 1: "i2c_start (peer False) 0x50 0 reset_state = Some (0, s1)"
    using peer_i2c_start [of False "0x50" 0 reset_state] by auto
  obtain s2 where 2: "i2c_rstart (peer False) 0x50 1 reset_state = Some (0, s2)"
    using peer_i2c_rstart [of False "0x50" 1 reset_state] by auto
  note e = program_reset
  note k = peer_kind(3) [of False]
  from address_framing [of "peer False" "0x50" 0 reset_state 0 s1] 1 e k
  have "program (trace s1) =
      [Idle_wait 0x5, Assert SEN, Idle_wait 0x5, Arm, Transmit 0xA0, Released, Ack_status False]"
    "SSPBUF (hw s1) = 0xA0"
    by simp_all
  moreover from address_framing [of "peer False" "0x50" 1 reset_state 0 s2] 2 e k
  have "program (trace s2) =
      [Idle_wait 0x5, Assert RSEN, Idle_wait 0x5, Arm, Transmit 0xA1, Released, Ack_status False]"
    "SSPBUF (hw s2) = 0xA1"
    by simp_all
  ultimately show ?thesis using 1 2 by simp
qed





text \<open>
  C4, as the code has it. One evaluation of the loop condition of \<^verbatim>\<open>i2c_check_idle\<close>
  is not one snapshot of the hardware: \<^verbatim>\<open>SSPCON2\<close> is read, and then \<^verbatim>\<open>SSPSTAT\<close>.
  For every mask and every environment the call returns at the first poll in which the
  value read from \<^verbatim>\<open>SSPCON2\<close> has its five condition bits zero and the value read
  from \<^verbatim>\<open>SSPSTAT\<close> right after has the bits selected by the mask zero, and at no other:
  it returns at once when the first poll is such, goes on to the next poll when it is not,
  and never returns when no poll ever is. When \<^verbatim>\<open>SSPCON2\<close> does not change between the
  two reads of any poll, that is the first poll at which the hardware is idle under the
  mask, and the call returns in an idle state. Every sequence of snapshots is the one some
  hardware shows.
\<close>

theorem idle_wait_first_poll:
  "(i2c_check_idle env m s = Some s' \<longleftrightarrow>
      (\<exists>n. quiescent m (con2_read env s n) (stat_read env s n) \<and>
           (\<forall>j<n. \<not> quiescent m (con2_read env s j) (stat_read env s j)) \<and>
           s' = logged (Idle_wait m) (ticks env (2 * n + 2) s))) \<and>
   (i2c_check_idle env m s = None \<longleftrightarrow>
      (\<forall>n. \<not> quiescent m (con2_read env s n) (stat_read env s n))) \<and>
   (quiescent m (con2_read env s 0) (stat_read env s 0) \<longrightarrow>
      i2c_check_idle env m s = Some (logged (Idle_wait m) (ticks env 2 s))) \<and>
   (\<not> quiescent m (con2_read env s 0) (stat_read env s 0) \<longrightarrow>
      i2c_check_idle env m s = i2c_check_idle env m (ticks env 2 s)) \<and>
   ((\<forall>k. SSPCON2 (hw (ticks env (2 * k + 2) s)) = SSPCON2 (hw (ticks env (2 * k + 1) s))) \<longrightarrow>
      (i2c_check_idle env m s = Some s' \<longleftrightarrow>
        (\<exists>n. idle m (hw (ticks env (2 * n + 2) s)) \<and>
             (\<forall>j<n. \<not> idle m (hw (ticks env (2 * j + 2) s))) \<and>
             s' = logged (Idle_wait m) (ticks env (2 * n + 2) s))) \<and>
      (i2c_check_idle env m s = Some s' \<longrightarrow> idle m (hw s'))) \<and>
   hw (ticks (playback snaps) (Suc k) s) = snaps (clock s + k)"
proof -
  have first: "i2c_check_idle env m s = Some s' \<longleftrightarrow>
      (\<exists>n. quiescent m (con2_read env s n) (stat_read env s n) \<and>
           (\<forall>j<n. \<not> quiescent m (con2_read env s j) (stat_read env s j)) \<and>
           s' = logged (Idle_wait m) (ticks env (2 * n + 2) s))"
    unfolding quiescent_iff_not_busy not_not
    using i2c_check_idle_Some [of env m s s'] i2c_check_idle_first [of m env s]
    by blast
  have never: "i2c_check_idle env m s = None \<longleftrightarrow>
      (\<forall>n. \<not> quiescent m (con2_read env s n) (stat_read env s n))"
    unfolding quiescent_iff_not_busy not_not by (rule i2c_check_idle_None)
  have now: "i2c_check_idle env m s = Some (logged (Idle_wait m) (ticks env 2 s))"
    if "quiescent m (con2_read env s 0) (stat_read env s 0)"
    using that i2c_check_idle_now [of m env s]
    by (simp add: quiescent_iff_not_busy reads_0 numeral_2_eq_2)
  have again: "i2c_check_idle env m s = i2c_check_idle env m (ticks env 2 s)"
    if "\<not> quiescent m (con2_read env s 0) (stat_read env s 0)"
    using that i2c_check_idle_again [of m env s]
    by (simp add: quiescent_iff_not_busy reads_0 numeral_2_eq_2)
  have play: "hw (ticks (playback snaps) (Suc k) s) = snaps (clock s + k)"
    by (simp only: ticks_Suc_right hw_tick clock_ticks) (simp add: playback_def)
  have steady: "(i2c_check_idle env m s = Some s' \<longleftrightarrow>
        (\<exists>n. idle m (hw (ticks env (2 * n + 2) s)) \<and>
             (\<forall>j<n. \<not> idle m (hw (ticks env (2 * j + 2) s))) \<and>
             s' = logged (Idle_wait m) (ticks env (2 * n + 2) s))) \<and>
      (i2c_check_idle env m s = Some s' \<longrightarrow> idle m (hw s'))"
    if st: "\<forall>k. SSPCON2 (hw (ticks env (2 * k + 2) s)) = SSPCON2 (hw (ticks env (2 * k + 1) s))"
  proof -
    have q: "quiescent m (con2_read env s n) (stat_read env s n) \<longleftrightarrow>
        idle m (hw (ticks env (2 * n + 2) s))" for n
      using st by (simp add: idle_def con2_read_def stat_read_def del: ticks.simps)
    have 1: "i2c_check_idle env m s = Some s' \<longleftrightarrow>
        (\<exists>n. idle m (hw (ticks env (2 * n + 2) s)) \<and>
             (\<forall>j<n. \<not> idle m (hw (ticks env (2 * j + 2) s))) \<and>
             s' = logged (Idle_wait m) (ticks env (2 * n + 2) s))"
      unfolding first q ..
    moreover have "idle m (hw s')" if "i2c_check_idle env m s = Some s'"
      using that unfolding 1 by (auto simp add: logged_simps simp del: ticks.simps)
    ultimately show ?thesis by blast
  qed
  from first never now again steady play show ?thesis by blast
qed

theorem idle_wait_first_poll_witness:
  "map_option clock (i2c_check_idle sluggish 0x5 reset_state) = Some 4 \<and>
   map_option (SSPSTAT \<circ> hw) (i2c_check_idle sluggish 0x5 reset_state) = Some 0 \<and>
   map_option (idle 0x5 \<circ> hw) (i2c_check_idle sluggish 0x5 reset_state) = Some True \<and>
   map_option clock (i2c_check_idle sluggish 0x1 reset_state) = Some 2 \<and>
   i2c_check_idle sluggish 0x5 reset_state =
     i2c_check_idle sluggish 0x5 (ticks sluggish 2 reset_state) \<and>
   i2c_check_idle silent 0x5 stuck_state = None"
proof -
  have c2: "con2_read sluggish reset_state n = 0" for n
    by (simp add: con2_read_def hw_ticks_sluggish reset_regs_def del: ticks.simps)
  have st: "stat_read sluggish reset_state n = (if n = 0 then 0x4 else 0)" for n
    by (simp add: stat_read_def hw_ticks_sluggish reset_regs_def del: ticks.simps)
  have q5: "quiescent 0x5 (con2_read sluggish reset_state n) (stat_read sluggish reset_state n)
      \<longleftrightarrow> n \<noteq> 0" for n
    by (simp add: c2 st quiescent_def all_bits8)
  have q1: "quiescent 0x1 (con2_read sluggish reset_state 0) (stat_read sluggish reset_state 0)"
    by (simp add: c2 st quiescent_def all_bits8)
  from idle_wait_first_poll [of sluggish "0x5" reset_state] q5 [of 0]
  have 4: "i2c_check_idle sluggish 0x5 reset_state =
     i2c_check_idle sluggish 0x5 (ticks sluggish 2 reset_state)" by blast
  have "quiescent 0x5 (con2_read sluggish reset_state 1) (stat_read sluggish reset_state 1) \<and>
    (\<forall>j<1. \<not> quiescent 0x5 (con2_read sluggish reset_state j)
      (stat_read sluggish reset_state j))"
    unfolding q5 by simp
  with idle_wait_first_poll [of sluggish "0x5" reset_state
      "logged (Idle_wait 0x5) (ticks sluggish (2 * 1 + 2) reset_state)"]
  have 1: "i2c_check_idle sluggish 0x5 reset_state =
      Some (logged (Idle_wait 0x5) (ticks sluggish (2 * 1 + 2) reset_state))" by blast
  from idle_wait_first_poll [of sluggish "0x1" reset_state] q1
  have 2: "i2c_check_idle sluggish 0x1 reset_state =
      Some (logged (Idle_wait 0x1) (ticks sluggish 2 reset_state))" by blast
  have "\<forall>n. \<not> quiescent 0x5 (con2_read silent stuck_state n) (stat_read silent stuck_state n)"
    by (simp add: con2_read_def stat_read_def hw_ticks_silent stuck_state_def reset_state_def
        quiescent_def reset_regs_def all_bits8 del: ticks.simps)
  with idle_wait_first_poll [of silent "0x5" stuck_state]
  have 3: "i2c_check_idle silent 0x5 stuck_state = None" by blast
  have "\<forall>k. SSPCON2 (hw (ticks sluggish (2 * k + 2) reset_state)) =
      SSPCON2 (hw (ticks sluggish (2 * k + 1) reset_state))"
    by (simp add: hw_ticks_sluggish reset_regs_def del: ticks.simps)
  with idle_wait_first_poll [of sluggish "0x5" reset_state
      "logged (Idle_wait 0x5) (ticks sluggish (2 * 1 + 2) reset_state)"] 1
  have 5: "idle 0x5 (hw (logged (Idle_wait 0x5) (ticks sluggish (2 * 1 + 2) reset_state)))"
    by blast
  have c: "clock reset_state = 0" by (simp add: reset_state_def)
  have "map_option clock (i2c_check_idle sluggish 0x5 reset_state) = Some 4"
    "map_option (SSPSTAT \<circ> hw) (i2c_check_idle sluggish 0x5 reset_state) = Some 0"
    "map_option clock (i2c_check_idle sluggish 0x1 reset_state) = Some 2"
    unfolding 1 2
    by (simp_all add: logged_simps clock_ticks c hw_ticks_sluggish reset_regs_def
        del: ticks.simps)
  moreover have "map_option (idle 0x5 \<circ> hw) (i2c_check_idle sluggish 0x5 reset_state) =
      Some True"
    unfolding 1 using 5 by simp
  ultimately show ?thesis using 3 4 by simp
qed

text \<open>
  The claim fails where it speaks of one snapshot. On a bus that is busy at every tick,
  with the buffer full at the even ticks and a start condition in progress at the odd ones,
  the first poll reads \<^verbatim>\<open>SSPCON2\<close> while no condition is in progress and \<^verbatim>\<open>SSPSTAT\<close>
  one tick later, while the buffer is not full: the call returns after that one poll,
  with \<^verbatim>\<open>SEN\<close> set, although the hardware was idle in no state at all.
\<close>

theorem idle_wait_returns_without_idle_snapshot:
  "map_option clock (i2c_check_idle flicker 0x5 stuck_state) = Some 2 \<and>
   map_option (SSPCON2 \<circ> hw) (i2c_check_idle flicker 0x5 stuck_state) = Some 0x1 \<and>
   map_option (idle 0x5 \<circ> hw) (i2c_check_idle flicker 0x5 stuck_state) = Some False \<and>
   \<not> idle 0x5 (hw stuck_state) \<and>
   \<not> idle 0x5 (hw (ticks flicker 1 stuck_state)) \<and>
   \<not> idle 0x5 (hw (ticks flicker 2 stuck_state)) \<and>
   (\<forall>n. \<not> idle 0x5 (hw (ticks flicker n stuck_state)))"
proof -
  have h: "hw (ticks flicker (Suc n) stuck_state) =
     reset_regs\<lparr>SSPCON2 := (if even n then 0 else 0x1),
                SSPSTAT := (if even n then 0x1 else 0)\<rparr>" for n
    by (rule hw_ticks_flicker)
  have 0: "\<not> idle 0x5 (hw stuck_state)"
    by (simp add: idle_def quiescent_def stuck_state_def reset_state_def reset_regs_def
        all_bits8)
  have n: "\<not> idle 0x5 (hw (ticks flicker (Suc n) stuck_state))" for n
    unfolding h by (simp add: idle_def quiescent_def reset_regs_def all_bits8)
  have all: "\<not> idle 0x5 (hw (ticks flicker n stuck_state))" for n
    using 0 n by (cases n) (simp_all del: ticks.simps, simp)
  have "\<not> busy 0x5 (SSPCON2 (hw (tick flicker stuck_state)))
      (SSPSTAT (hw (tick flicker (tick flicker stuck_state))))"
    using h [of 0] h [of 1] by (simp add: busy_def reset_regs_def)
  then have run: "i2c_check_idle flicker 0x5 stuck_state =
      Some (logged (Idle_wait 0x5) (ticks flicker (Suc 1) stuck_state))"
    by (simp add: i2c_check_idle_now)
  have "clock (ticks flicker (Suc 1) stuck_state) = 2"
    by (simp add: clock_ticks stuck_state_def reset_state_def del: ticks.simps)
  moreover have "SSPCON2 (hw (ticks flicker (Suc 1) stuck_state)) = 0x1"
    unfolding h by simp
  moreover have "ticks flicker 1 stuck_state = ticks flicker (Suc 0) stuck_state"
    "ticks flicker 2 stuck_state = ticks flicker (Suc 1) stuck_state"
    by (simp_all add: numeral_2_eq_2)
  ultimately show ?thesis
    unfolding run using 0 n [of 0] n [of 1] all
    by (simp add: logged_simps del: ticks.simps)
qed




text \<open>
  C6, as the code has it. The wait loop is only ever entered after the flag has been
  armed, in \<^verbatim>\<open>i2c_start\<close>, \<^verbatim>\<open>i2c_rstart\<close> and \<^verbatim>\<open>i2c_send\<close>. Called while the flag
  is not armed, each of them, if it returns, adds to the history of the flag exactly:
  armed, cleared by the handler, wait loop left. So the loop is left once for each call of
  the handler that found the flag set with the completion signal pending, and once only.
  Poll by poll: the armed loop is left at the tick at which the handler is called with the
  signal pending, goes on at any other tick, and is never left when the flag never becomes
  0. A call of the handler while the flag is clear leaves the flag, the log and the tick
  count as they were, but it is not without effect: it clears the two pending indicators.
  When neither was pending it changes nothing at all. When one was, the operations that
  follow run as they would have without the call if the dispatcher was about to call the
  handler anyway (that call clears the same indicators) and the hardware does not look at
  them; otherwise a later wait may have lost the signal that would have released it.
\<close>

theorem rendezvous_once:
  "(ack_flag s \<noteq> 1 \<and>
    (i2c_start env adrs rw s = Some (r, s') \<or> i2c_rstart env adrs rw s = Some (r, s') \<or>
     i2c_send env dt s = Some (r, s')) \<longrightarrow>
      bridge (trace s') = bridge (trace s) @ [Arm, Handler_cleared, Released]) \<and>
   (ack_flag s = 1 \<and> signalled env s \<longrightarrow>
      wait_ack env s = Some (logged Released (tick env s))) \<and>
   (ack_flag s = 1 \<and> \<not> signalled env s \<longrightarrow>
      wait_ack env s = wait_ack env (tick env s) \<and> ack_flag (tick env s) = 1) \<and>
   (wait_ack env s = None \<longleftrightarrow> (\<forall>n. ack_flag (ticks env (Suc n) s) \<noteq> 0)) \<and>
   (ack_flag s = 0 \<longrightarrow>
      i2c_interrupt s = s\<lparr>hw := (hw s)\<lparr>SSPIF := False, BCLIF := False\<rparr>\<rparr> \<and>
      ack_flag (i2c_interrupt s) = 0 \<and> trace (i2c_interrupt s) = trace s \<and>
      clock (i2c_interrupt s) = clock s \<and>
      ack_flag (tick env s) = 0 \<and> trace (tick env s) = trace s) \<and>
   (\<not> SSPIF (hw s) \<and> \<not> BCLIF (hw s) \<longrightarrow> i2c_interrupt s = s) \<and>
   (ack_flag s = 0 \<and> oblivious env \<and> dispatch (env (clock s)) \<longrightarrow>
      tick env (i2c_interrupt s) = tick env s \<and>
      i2c_start env adrs rw (i2c_interrupt s) = i2c_start env adrs rw s \<and>
      i2c_rstart env adrs rw (i2c_interrupt s) = i2c_rstart env adrs rw s \<and>
      i2c_send env dt (i2c_interrupt s) = i2c_send env dt s) \<and>
   (ack_flag s = 0 \<and>
    (i2c_start env adrs rw (i2c_interrupt s) = Some (r, s') \<or>
     i2c_rstart env adrs rw (i2c_interrupt s) = Some (r, s') \<or>
     i2c_send env dt (i2c_interrupt s) = Some (r, s')) \<longrightarrow>
      bridge (trace s') = bridge (trace s) @ [Arm, Handler_cleared, Released])"
proof (intro conjI impI)
  assume "ack_flag s \<noteq> 1 \<and>
    (i2c_start env adrs rw s = Some (r, s') \<or> i2c_rstart env adrs rw s = Some (r, s') \<or>
     i2c_send env dt s = Some (r, s'))"
  then show "bridge (trace s') = bridge (trace s) @ [Arm, Handler_cleared, Released]"
    using i2c_start_rendezvous i2c_rstart_rendezvous i2c_send_rendezvous by blast
next
  assume "ack_flag s = 1 \<and> signalled env s"
  then show "wait_ack env s = Some (logged Released (tick env s))"
    by (simp add: wait_ack_signalled)
next
  assume a: "ack_flag s = 1 \<and> \<not> signalled env s"
  then show "wait_ack env s = wait_ack env (tick env s)" "ack_flag (tick env s) = 1"
    using wait_ack_not_signalled [of s env] by simp_all
next
  show "wait_ack env s = None \<longleftrightarrow> (\<forall>n. ack_flag (ticks env (Suc n) s) \<noteq> 0)"
    by (rule wait_ack_None)
next
  assume a: "ack_flag s = 0"
  then show "i2c_interrupt s = s\<lparr>hw := (hw s)\<lparr>SSPIF := False, BCLIF := False\<rparr>\<rparr>"
    by (rule spurious_call)
  from a show "ack_flag (i2c_interrupt s) = 0" "trace (i2c_interrupt s) = trace s"
    "clock (i2c_interrupt s) = clock s"
    "ack_flag (tick env s) = 0" "trace (tick env s) = trace s"
    by (simp_all add: ack_flag_i2c_interrupt trace_i2c_interrupt clock_i2c_interrupt
        ack_flag_tick trace_tick)
next
  assume "\<not> SSPIF (hw s) \<and> \<not> BCLIF (hw s)"
  then show "i2c_interrupt s = s" by (simp add: idle_call)
next
  assume "ack_flag s = 0 \<and> oblivious env \<and> dispatch (env (clock s))"
  then have a: "oblivious env" "dispatch (env (clock s))" "ack_flag s = 0" by simp_all
  show "tick env (i2c_interrupt s) = tick env s" using a by (rule oblivious_tick)
  show "i2c_start env adrs rw (i2c_interrupt s) = i2c_start env adrs rw s"
    "i2c_rstart env adrs rw (i2c_interrupt s) = i2c_rstart env adrs rw s"
    "i2c_send env dt (i2c_interrupt s) = i2c_send env dt s"
    using a by (rule oblivious_operations)+
next
  assume a: "ack_flag s = 0 \<and>
    (i2c_start env adrs rw (i2c_interrupt s) = Some (r, s') \<or>
     i2c_rstart env adrs rw (i2c_interrupt s) = Some (r, s') \<or>
     i2c_send env dt (i2c_interrupt s) = Some (r, s'))"
  then have "ack_flag (i2c_interrupt s) \<noteq> 1" by (simp add: ack_flag_i2c_interrupt)
  with a have "bridge (trace s') =
      bridge (trace (i2c_interrupt s)) @ [Arm, Handler_cleared, Released]"
    using i2c_start_rendezvous i2c_rstart_rendezvous i2c_send_rendezvous by blast
  then show "bridge (trace s') = bridge (trace s) @ [Arm, Handler_cleared, Released]"
    by (simp add: trace_i2c_interrupt)
qed

theorem rendezvous_once_witness:
  "map_option (bridge \<circ> trace \<circ> snd) (i2c_send (peer False) 0x10 reset_state) =
     Some [Arm, Handler_cleared, Released] \<and>
   map_option (bridge \<circ> trace \<circ> snd) (i2c_start (peer True) 0x50 0 (i2c_interrupt reset_state))
     = Some [Arm, Handler_cleared, Released] \<and>
   wait_ack (peer False) conflict_state =
     Some (logged Released (tick (peer False) conflict_state)) \<and>
   wait_ack silent conflict_state = wait_ack silent (tick silent conflict_state) \<and>
   wait_ack silent conflict_state = None \<and>
   ack_flag (i2c_interrupt reset_state) = 0 \<and>
   i2c_interrupt reset_state = reset_state \<and>
   hw (i2c_interrupt pending_state) = reset_regs \<and>
   i2c_send (peer True) 0x10 (i2c_interrupt pending_state) =
     i2c_send (peer True) 0x10 pending_state \<and>
   map_option fst (i2c_send (peer True) 0x10 pending_state) = Some 1"
proof -
  obtain s1 where 1: "i2c_send (peer False) 0x10 reset_state = Some (0, s1)"
    using peer_i2c_send [of False "0x10" reset_state] by auto
  obtain s2 where 2: "i2c_start (peer True) 0x50 0 (i2c_interrupt reset_state) = Some (1, s2)"
    using peer_i2c_start [of True "0x50" 0 "i2c_interrupt reset_state"] by auto
  obtain s3 where 3: "i2c_send (peer True) 0x10 pending_state = Some (1, s3)"
    using peer_i2c_send [of True "0x10" pending_state] by auto
  have f: "ack_flag reset_state = 0" "bridge (trace reset_state) = []"
    "\<not> SSPIF (hw reset_state)" "\<not> BCLIF (hw reset_state)"
    by (simp_all add: reset_state_def reset_regs_def bridge_def)
  have g: "ack_flag conflict_state = 1" "\<not> signalled silent conflict_state"
    "signalled (peer False) conflict_state"
    by (simp_all add: conflict_state_def signalled_def silent_def peer_def)
  have p: "ack_flag pending_state = 0" "dispatch (peer True (clock pending_state))"
    "(hw pending_state)\<lparr>SSPIF := False, BCLIF := False\<rparr> = reset_regs"
    by (simp_all add: pending_state_def reset_state_def reset_regs_def peer_def)
  have never: "\<forall>n. ack_flag (ticks silent (Suc n) conflict_state) \<noteq> 0"
    using never_signals_ticks [OF silent_kind(1), of _ conflict_state] g(1)
    by (simp del: ticks.simps)
  from rendezvous_once [where s = reset_state and env = "peer False" and dt = "0x10"
      and r = 0 and s' = s1] 1 f
  have "bridge (trace s1) = [Arm, Handler_cleared, Released]" by simp
  moreover from rendezvous_once [where s = reset_state and env = "peer True" and adrs = "0x50"
      and rw = 0 and r = 1 and s' = s2] 2 f
  have "bridge (trace s2) = [Arm, Handler_cleared, Released]"
    "ack_flag (i2c_interrupt reset_state) = 0" "i2c_interrupt reset_state = reset_state"
    by simp_all
  moreover from rendezvous_once [where s = conflict_state and env = "peer False"] g
  have "wait_ack (peer False) conflict_state =
     Some (logged Released (tick (peer False) conflict_state))" by blast
  moreover from rendezvous_once [where s = conflict_state and env = silent] g never
  have "wait_ack silent conflict_state = wait_ack silent (tick silent conflict_state)"
    "wait_ack silent conflict_state = None" by blast+
  moreover from rendezvous_once [where s = pending_state and env = "peer True"
      and dt = "0x10"] p(1,2) oblivious_bench(1) [of True]
  have "i2c_interrupt pending_state =
      pending_state\<lparr>hw := (hw pending_state)\<lparr>SSPIF := False, BCLIF := False\<rparr>\<rparr>"
    "i2c_send (peer True) 0x10 (i2c_interrupt pending_state) =
     i2c_send (peer True) 0x10 pending_state"
    by blast+
  moreover have "hw (pending_state\<lparr>hw := (hw pending_state)\<lparr>SSPIF := False, BCLIF := False\<rparr>\<rparr>)
      = reset_regs"
    using p(3) by simp
  ultimately show ?thesis using 1 2 3 by simp
qed

text \<open>
  The second half of the claim fails. The flag is clear and a completion signal is pending,
  on a bus that changes no register and whose dispatcher calls the handler from tick 3 on.
  \<^verbatim>\<open>i2c_send\<close> arms the flag, the handler is called, finds the signal pending and
  clears the flag, and the call returns 0. After one spurious call of the handler in the
  same state the signal is gone: the same \<^verbatim>\<open>i2c_send\<close> arms the flag and never returns.
\<close>

theorem spurious_call_consumes_signal:
  "ack_flag pending_state = 0 \<and> SSPIF (hw pending_state) \<and>
   ack_flag (i2c_interrupt pending_state) = 0 \<and>
   map_option fst (i2c_send late 0x10 pending_state) = Some 0 \<and>
   map_option (clock \<circ> snd) (i2c_send late 0x10 pending_state) = Some 6 \<and>
   i2c_send late 0x10 (i2c_interrupt pending_state) = None"
proof -
  from late_send_pending obtain s' where "i2c_send late 0x10 pending_state = Some (0, s')"
    "clock s' = 6" by blast
  moreover have "i2c_send late 0x10 (i2c_interrupt pending_state) = None"
    by (simp only: late_after_spurious_call)
  moreover have "ack_flag pending_state = 0" "SSPIF (hw pending_state)"
    "ack_flag (i2c_interrupt pending_state) = 0"
    by (simp_all add: pending_state_def reset_state_def reset_regs_def i2c_interrupt_def)
  ultimately show ?thesis by simp
qed

text \<open>
  C7, as the code has it. The handler clears \<^verbatim>\<open>ack_flag\<close> only inside the test
  \<^verbatim>\<open>SSPIF == 1\<close>: called while the completion signal is pending it takes a flag that is
  1 back to 0 and clears \<^verbatim>\<open>SSPIF\<close>, also when the flag was clear already; called while
  only a bus conflict is pending it leaves the flag as it is. \<^verbatim>\<open>BCLIF\<close> is cleared in
  every case. Nothing else changes and nothing is returned.
\<close>

theorem handler_effect:
  "(SSPIF (hw s) \<and> ack_flag s = 1 \<longrightarrow> ack_flag (i2c_interrupt s) = 0) \<and>
   (\<not> SSPIF (hw s) \<or> ack_flag s \<noteq> 1 \<longrightarrow> ack_flag (i2c_interrupt s) = ack_flag s) \<and>
   \<not> SSPIF (hw (i2c_interrupt s)) \<and>
   \<not> BCLIF (hw (i2c_interrupt s)) \<and>
   hw (i2c_interrupt s) = (hw s)\<lparr>SSPIF := False, BCLIF := False\<rparr> \<and>
   clock (i2c_interrupt s) = clock s \<and>
   trace (i2c_interrupt s) = trace s"
  by (simp add: hw_i2c_interrupt ack_flag_i2c_interrupt clock_i2c_interrupt trace_i2c_interrupt)

theorem handler_effect_witness:
  "ack_flag (i2c_interrupt (conflict_state\<lparr>hw := reset_regs\<lparr>SSPIF := True\<rparr>\<rparr>)) = 0 \<and>
   ack_flag (i2c_interrupt conflict_state) = 1 \<and>
   hw (i2c_interrupt conflict_state) = reset_regs"
  using handler_effect [of "conflict_state\<lparr>hw := reset_regs\<lparr>SSPIF := True\<rparr>\<rparr>"]
    handler_effect [of conflict_state]
  by (simp add: conflict_state_def reset_state_def reset_regs_def)

theorem handler_keeps_flag_on_conflict:
  "ack_flag conflict_state = 1 \<and> BCLIF (hw conflict_state) \<and>
   ack_flag (i2c_interrupt conflict_state) = 1"
  by (simp add: conflict_state_def reset_state_def reset_regs_def i2c_interrupt_def)

text \<open>
  C8. \<^verbatim>\<open>i2c_rstart\<close> is \<^verbatim>\<open>i2c_start\<close> with \<^verbatim>\<open>RSEN\<close> in the place of
  \<^verbatim>\<open>SEN\<close>. On hardware that does with \<^verbatim>\<open>RSEN\<close> what the given hardware does with
  \<^verbatim>\<open>SEN\<close>, it returns when \<^verbatim>\<open>i2c_start\<close> does, after the same ticks, with the
  same value, in the same state but for the two bits exchanged, and it hangs when
  \<^verbatim>\<open>i2c_start\<close> hangs; and the other way round. On any hardware the two perform the same
  sequence of actions with the same address byte, but for the condition asserted, and
  both return the \<^verbatim>\<open>ACKSTAT\<close> bit read last.
\<close>

theorem repeated_start_mirrors_start:
  "i2c_rstart (mirror_env env) adrs rw (mirror s) =
     map_option (map_prod id mirror) (i2c_start env adrs rw s) \<and>
   i2c_start (mirror_env env) adrs rw (mirror s) =
     map_option (map_prod id mirror) (i2c_rstart env adrs rw s) \<and>
   mirror (mirror s) = s \<and> mirror_env (mirror_env env) = env \<and>
   (i2c_start env adrs rw s = Some (r, s') \<longrightarrow>
      program (trace s') = program (trace s) @ start_actions SEN adrs rw r \<and>
      (r = 1 \<longleftrightarrow> bit (SSPCON2 (hw s')) (field_bit ACKSTAT)) \<and>
      (r = 0 \<longleftrightarrow> \<not> bit (SSPCON2 (hw s')) (field_bit ACKSTAT))) \<and>
   (i2c_rstart env adrs rw s = Some (r, s') \<longrightarrow>
      program (trace s') = program (trace s) @ start_actions RSEN adrs rw r \<and>
      (r = 1 \<longleftrightarrow> bit (SSPCON2 (hw s')) (field_bit ACKSTAT)) \<and>
      (r = 0 \<longleftrightarrow> \<not> bit (SSPCON2 (hw s')) (field_bit ACKSTAT)))"
proof (intro conjI impI)
  show 1: "i2c_rstart (mirror_env env) adrs rw (mirror s) =
     map_option (map_prod id mirror) (i2c_start env adrs rw s)" for env s
    by (rule mirror_i2c_start)
  have "map_option (map_prod id mirror) (i2c_rstart env adrs rw s) =
      map_option (map_prod id mirror)
        (map_option (map_prod id mirror) (i2c_start (mirror_env env) adrs rw (mirror s)))"
    using 1 [of "mirror_env env" "mirror s"]
    by (simp only: mirror_mirror mirror_env_mirror_env)
  also have "\<dots> = i2c_start (mirror_env env) adrs rw (mirror s)"
    by (simp add: option.map_comp prod.map_comp comp_def mirror_mirror option.map_ident
        prod.map_ident)
  finally show "i2c_start (mirror_env env) adrs rw (mirror s) =
     map_option (map_prod id mirror) (i2c_rstart env adrs rw s)" by simp
  show "mirror (mirror s) = s" by (rule mirror_mirror)
  show "mirror_env (mirror_env env) = env" by (rule mirror_env_mirror_env)
next
  assume a: "i2c_start env adrs rw s = Some (r, s')"
  then show "program (trace s') = program (trace s) @ start_actions SEN adrs rw r"
    by (simp add: start_actions_def i2c_start_program)
  from a obtain x s3 where "wait_ack env x = Some s3" "return_ACKSTAT env s3 = (r, s')"
    by (rule i2c_start_steps)
  from handshake_returns(2) [OF this]
  show "r = 1 \<longleftrightarrow> bit (SSPCON2 (hw s')) (field_bit ACKSTAT)"
    "r = 0 \<longleftrightarrow> \<not> bit (SSPCON2 (hw s')) (field_bit ACKSTAT)" by simp_all
next
  assume a: "i2c_rstart env adrs rw s = Some (r, s')"
  then show "program (trace s') = program (trace s) @ start_actions RSEN adrs rw r"
    by (simp add: start_actions_def i2c_rstart_program)
  from a obtain x s3 where "wait_ack env x = Some s3" "return_ACKSTAT env s3 = (r, s')"
    by (rule i2c_rstart_steps)
  from handshake_returns(2) [OF this]
  show "r = 1 \<longleftrightarrow> bit (SSPCON2 (hw s')) (field_bit ACKSTAT)"
    "r = 0 \<longleftrightarrow> \<not> bit (SSPCON2 (hw s')) (field_bit ACKSTAT)" by simp_all
qed

theorem repeated_start_mirrors_start_witness:
  "map_option (program \<circ> trace \<circ> snd) (i2c_start (peer True) 0x50 1 reset_state) =
     Some (start_actions SEN 0x50 1 1) \<and>
   map_option (program \<circ> trace \<circ> snd) (i2c_rstart (peer True) 0x50 1 reset_state) =
     Some (start_actions RSEN 0x50 1 1) \<and>
   map_option fst (i2c_rstart (mirror_env (peer True)) 0x50 1 (mirror reset_state)) = Some 1 \<and>
   map_option (program \<circ> trace \<circ> snd)
     (i2c_rstart (mirror_env (peer True)) 0x50 1 (mirror reset_state)) =
     Some (start_actions RSEN 0x50 1 1)"
proof -
  obtain s1 where 1: "i2c_start (peer True) 0x50 1 reset_state = Some (1, s1)"
    using peer_i2c_start [of True "0x50" 1 reset_state] by auto
  obtain s2 where 2: "i2c_rstart (peer True) 0x50 1 reset_state = Some (1, s2)"
    using peer_i2c_rstart [of True "0x50" 1 reset_state] by auto
  note e = program_reset
  note inst = repeated_start_mirrors_start [where env = "peer True" and adrs = "0x50" and rw = 1
      and s = reset_state and r = 1]
  from inst [where s' = s1] 1 e
  have a: "program (trace s1) = start_actions SEN 0x50 1 1" by simp
  from inst [where s' = s2] 2 e
  have b: "program (trace s2) = start_actions RSEN 0x50 1 1" by simp
  from inst [where s' = s1] 1
  have c: "i2c_rstart (mirror_env (peer True)) 0x50 1 (mirror reset_state) =
      Some (1, mirror s1)" by simp
  have "program (trace (mirror s1)) = map mirror_action (program (trace s1))"
    by (rule program_mirror)
  then have d: "program (trace (mirror s1)) = start_actions RSEN 0x50 1 1"
    by (simp add: a start_actions_def)
  from a b c d 1 2 show ?thesis by simp
qed


text \<open>
  C9. \<^verbatim>\<open>i2c_init_master\<close> stores \<open>0x77\<close> in \<^verbatim>\<open>SSPADD\<close>, third of its nine register
  writes; \<open>0x77 = 119\<close> is the divisor \<open>CPU_clock / (4 \<times> bus_rate) - 1\<close> of the
  specification for a CPU clock of 48 MHz and a bus rate of 100 kHz.
\<close>

theorem clock_divisor:
  "program (trace (i2c_init_master env s)) = program (trace s) @
     [Store_SSPCON1 0x28, Store_SSPSTAT 0, Store_SSPADD 0x77, Store_SSPIE True,
      Store_BCLIE True, Store_PEIE True, Store_GIE True, Store_SSPIF False,
      Store_BCLIF False] \<and>
   unat (0x77 :: byte) = spec_divisor 48000000 100000 \<and>
   spec_divisor 48000000 100000 = 119"
  by (simp add: i2c_init_master_def Let_def program_poke spec_divisor_def)

theorem clock_divisor_witness:
  "program (trace (i2c_init_master silent reset_state)) =
     [Store_SSPCON1 0x28, Store_SSPSTAT 0, Store_SSPADD 0x77, Store_SSPIE True,
      Store_BCLIE True, Store_PEIE True, Store_GIE True, Store_SSPIF False,
      Store_BCLIF False] \<and>
   SSPADD (hw (i2c_init_master silent reset_state)) = 0x77"
proof -
  have "program (trace reset_state) = []" by (simp add: reset_state_def program_def)
  with clock_divisor [of silent reset_state]
  have "program (trace (i2c_init_master silent reset_state)) =
     [Store_SSPCON1 0x28, Store_SSPSTAT 0, Store_SSPADD 0x77, Store_SSPIE True,
      Store_BCLIE True, Store_PEIE True, Store_GIE True, Store_SSPIF False,
      Store_BCLIF False]" by simp
  moreover have "SSPADD (hw (i2c_init_master silent reset_state)) = 0x77"
    by (simp add: i2c_init_master_def Let_def poke_simps hw_tick clock_tick silent_def)
  ultimately show ?thesis by simp
qed





end
